theory Spec2Isabelle
  imports Complex_Main
begin

section \<open>JavaScript values\<close>

text \<open>
  The front end is dynamically typed. A value handed to the functions below is one
  of the JavaScript values that JSON and the built-in parsers produce. Numbers are
  IEEE doubles in the source; here a finite number is an exact rational and \<open>NaN\<close> is a
  value of its own, so results that depend on rounding are outside this model.
  A string is a list of code units below 256 (ASCII and Latin-1).
\<close>

datatype jsval =
    JUndefined
  | JNull
  | JBool bool
  | JNum rat
  | JNaN
  | JStr string
  | JArr "jsval list"
  | JObj "(string \<times> jsval) list"

text \<open>\<open>ToBoolean\<close>: what \<open>!v\<close>, \<open>v || d\<close> and \<open>if (v)\<close> test.\<close>

fun truthy :: "jsval \<Rightarrow> bool" where
  "truthy JUndefined = False"
| "truthy JNull = False"
| "truthy (JBool b) = b"
| "truthy (JNum n) = (n \<noteq> 0)"
| "truthy JNaN = False"
| "truthy (JStr s) = (s \<noteq> [])"
| "truthy (JArr _) = True"
| "truthy (JObj _) = True"

text \<open>\<open>typeof v === 'string'\<close>.\<close>

fun is_string :: "jsval \<Rightarrow> bool" where
  "is_string (JStr _) = True"
| "is_string _ = False"

text \<open>\<open>a || b\<close>.\<close>

definition js_or :: "jsval \<Rightarrow> jsval \<Rightarrow> jsval" where
  "js_or a b = (if truthy a then a else b)"

section \<open>Character classes of the regular expressions\<close>

definition is_digit :: "char \<Rightarrow> bool" where
  "is_digit c = (c \<in> set ''0123456789'')"

text \<open>
  \<open>\s\<close> and \<open>String.prototype.trim\<close> use the same set: white space and line
  terminators. Below code unit 256 these are tab, line feed, vertical tab, form feed,
  carriage return, space and the no-break space.
\<close>

definition is_space :: "char \<Rightarrow> bool" where
  "is_space c = (c \<in> set [CHR 0x09, CHR 0x0A, CHR 0x0B, CHR 0x0C, CHR 0x0D, CHR 0x20, CHR 0xA0])"

text \<open>\<open>.\<close> matches every code unit but a line terminator.\<close>

definition is_dot :: "char \<Rightarrow> bool" where
  "is_dot c = (c \<noteq> CHR 0x0A \<and> c \<noteq> CHR 0x0D)"

text \<open>
  Under the \<open>i\<close> flag both the pattern character and the input character are
  canonicalised by upper-casing. Every literal of the patterns below is ASCII, and no
  code unit outside ASCII canonicalises to an ASCII letter, so upper-casing the
  ASCII letters is all that the comparison needs.
\<close>

definition upper_ascii :: "char \<Rightarrow> char" where
  "upper_ascii c =
     (case map_of (zip ''abcdefghijklmnopqrstuvwxyz'' ''ABCDEFGHIJKLMNOPQRSTUVWXYZ'') c of
        Some u \<Rightarrow> u | None \<Rightarrow> c)"

definition canon :: "bool \<Rightarrow> char \<Rightarrow> char" where
  "canon ic c = (if ic then upper_ascii c else c)"

section \<open>A backtracking matcher for the regular expressions of the source\<close>

text \<open>
  The constructors are the operators the source's patterns use. \<open>Grp k r\<close> is the
  capturing group number \<open>k\<close>; \<open>Bol\<close> is \<open>^\<close> (no \<open>m\<close> flag is used, so it holds at index 0
  only). Quantifiers are greedy, alternatives are tried left to right.
\<close>

datatype regex =
    Eps
  | Lit char
  | Digit
  | Space
  | Dot
  | Bol
  | Seq regex regex
  | Alt regex regex
  | Star regex
  | Grp nat regex

text \<open>
  \<open>r?\<close>, \<open>r+\<close>, \<open>r{n}\<close>, a literal word, and \<open>r1|...|rn\<close>. \<open>r+\<close> and \<open>r{n}\<close> write the
  pattern out again; the source applies them to patterns without groups only.
\<close>

definition Opt :: "regex \<Rightarrow> regex" where
  "Opt r = Alt r Eps"

definition Plus :: "regex \<Rightarrow> regex" where
  "Plus r = Seq r (Star r)"

fun Rep :: "nat \<Rightarrow> regex \<Rightarrow> regex" where
  "Rep 0 r = Eps"
| "Rep (Suc n) r = Seq r (Rep n r)"

fun lits :: "string \<Rightarrow> regex" where
  "lits [] = Eps"
| "lits (c # cs) = Seq (Lit c) (lits cs)"

fun alts :: "regex list \<Rightarrow> regex" where
  "alts [] = Eps"
| "alts [r] = r"
| "alts (r # rs) = Alt r (alts rs)"

text \<open>
  A matcher state: the index reached, the input from there on, and the captures made
  so far (latest first). A matcher returns the states in which it can end, in the
  order in which backtracking tries them; the first one that lets the rest of the
  pattern succeed is the match.
\<close>

type_synonym mstate = "nat \<times> string \<times> (nat \<times> string) list"

fun step_class :: "(char \<Rightarrow> bool) \<Rightarrow> mstate \<Rightarrow> mstate list" where
  "step_class p (i, [], caps) = []"
| "step_class p (i, x # xs, caps) = (if p x then [(Suc i, xs, caps)] else [])"

text \<open>
  \<open>r*\<close>: one more round of \<open>r\<close> that must consume input (the standard rejects an empty
  round), then the rest; or stop here. Every round consumes at least one code unit, so
  the number of rounds is bounded by the length of the remaining input.
\<close>

fun star_iter :: "(mstate \<Rightarrow> mstate list) \<Rightarrow> nat \<Rightarrow> mstate \<Rightarrow> mstate list" where
  "star_iter f 0 st = [st]"
| "star_iter f (Suc n) st =
     concat (map (\<lambda>st'. if fst st < fst st' then star_iter f n st' else []) (f st)) @ [st]"

primrec rmatch :: "bool \<Rightarrow> regex \<Rightarrow> mstate \<Rightarrow> mstate list" where
  "rmatch ic Eps st = [st]"
| "rmatch ic (Lit c) st = step_class (\<lambda>x. canon ic x = canon ic c) st"
| "rmatch ic Digit st = step_class is_digit st"
| "rmatch ic Space st = step_class is_space st"
| "rmatch ic Dot st = step_class is_dot st"
| "rmatch ic Bol st = (if fst st = 0 then [st] else [])"
| "rmatch ic (Seq r1 r2) st = concat (map (rmatch ic r2) (rmatch ic r1 st))"
| "rmatch ic (Alt r1 r2) st = rmatch ic r1 st @ rmatch ic r2 st"
| "rmatch ic (Star r) st = star_iter (rmatch ic r) (length (fst (snd st))) st"
| "rmatch ic (Grp k r) st =
     map (\<lambda>(j, rest, caps). (j, rest, (k, take (j - fst st) (fst (snd st))) # caps))
       (rmatch ic r st)"

text \<open>The number of capturing groups of a pattern.\<close>

primrec ngroups :: "regex \<Rightarrow> nat" where
  "ngroups Eps = 0"
| "ngroups (Lit c) = 0"
| "ngroups Digit = 0"
| "ngroups Space = 0"
| "ngroups Dot = 0"
| "ngroups Bol = 0"
| "ngroups (Seq r1 r2) = ngroups r1 + ngroups r2"
| "ngroups (Alt r1 r2) = ngroups r1 + ngroups r2"
| "ngroups (Star r) = ngroups r"
| "ngroups (Grp k r) = Suc (ngroups r)"

text \<open>
  The leftmost match: try index \<open>i\<close>, then the next index, up to and including the end
  of the input. The result is the text before the match, the matched text, the text
  after it, and the captures.
\<close>

fun search_from :: "bool \<Rightarrow> regex \<Rightarrow> nat \<Rightarrow> string \<Rightarrow> string
    \<Rightarrow> (string \<times> string \<times> string \<times> (nat \<times> string) list) option" where
  "search_from ic r i pre s =
     (case rmatch ic r (i, s, []) of
        (j, rest, caps) # _ \<Rightarrow> Some (pre, take (j - i) s, rest, caps)
      | [] \<Rightarrow> (case s of
                 [] \<Rightarrow> None
               | x # xs \<Rightarrow> search_from ic r (Suc i) (pre @ [x]) xs))"

definition search :: "bool \<Rightarrow> regex \<Rightarrow> string
    \<Rightarrow> (string \<times> string \<times> string \<times> (nat \<times> string) list) option" where
  "search ic r s = search_from ic r 0 [] s"

text \<open>
  \<open>s.match(re)\<close> for a pattern without the \<open>g\<close> flag: \<open>null\<close> (here \<open>None\<close>), or an
  array holding the matched text at index 0 and the capture of group \<open>k\<close> at index \<open>k\<close>
  (\<open>undefined\<close>, here \<open>None\<close>, for a group that took no part in the match).
\<close>

definition js_match :: "bool \<Rightarrow> regex \<Rightarrow> string \<Rightarrow> string option list option" where
  "js_match ic r s =
     (case search ic r s of
        None \<Rightarrow> None
      | Some (pre, m, post, caps) \<Rightarrow>
          Some (Some m # map (map_of caps) [1 ..< Suc (ngroups r)]))"

text \<open>Reading an array element: \<open>undefined\<close> beyond the end.\<close>

definition arr_get :: "string option list \<Rightarrow> nat \<Rightarrow> string option" where
  "arr_get arr k = (if k < length arr then arr ! k else None)"

text \<open>\<open>s.replace(re, '')\<close> for a pattern without the \<open>g\<close> flag: the first match is cut out.\<close>

definition js_replace :: "bool \<Rightarrow> regex \<Rightarrow> string \<Rightarrow> string" where
  "js_replace ic r s =
     (case search ic r s of
        None \<Rightarrow> s
      | Some (pre, m, post, caps) \<Rightarrow> pre @ post)"

text \<open>\<open>s.replace(/,/g, '')\<close>: every comma is removed.\<close>

definition remove_commas :: "string \<Rightarrow> string" where
  "remove_commas s = filter (\<lambda>c. c \<noteq> CHR '','') s"

text \<open>\<open>s.trim()\<close>.\<close>

definition js_trim :: "string \<Rightarrow> string" where
  "js_trim s = rev (dropWhile is_space (rev (dropWhile is_space s)))"

section \<open>Number parsing\<close>

definition digit_val :: "char \<Rightarrow> int" where
  "digit_val c =
     (case map_of (zip ''0123456789'' [0, 1, 2, 3, 4, 5, 6, 7, 8, 9]) c of
        Some d \<Rightarrow> d | None \<Rightarrow> 0)"

definition digits_val :: "string \<Rightarrow> int" where
  "digits_val ds = foldl (\<lambda>n c. 10 * n + digit_val c) 0 ds"

text \<open>
  \<open>parseFloat\<close> and \<open>parseInt\<close> read the longest numeric prefix. The source calls them
  on captures of \<open>\d+(?:,\d{3})*(?:\.\d{2})?\<close> (commas removed) and of \<open>\d+\<close>, so the forms
  modelled are an unsigned digit string with an optional fraction, and an unsigned
  digit string; a string that starts with neither gives \<open>NaN\<close>.
\<close>

definition parseFloat :: "string \<Rightarrow> jsval" where
  "parseFloat s =
     (let ip = takeWhile is_digit s;
          r = dropWhile is_digit s;
          fp = (case r of [] \<Rightarrow> [] | c # r' \<Rightarrow> if c = CHR ''.'' then takeWhile is_digit r' else [])
      in if ip = [] \<and> fp = [] then JNaN
         else JNum (of_int (digits_val ip) + of_int (digits_val fp) / 10 ^ length fp))"

definition parseInt :: "string \<Rightarrow> jsval" where
  "parseInt s =
     (let ip = takeWhile is_digit s
      in if ip = [] then JNaN else JNum (of_int (digits_val ip)))"

section \<open>The fallback extractor (Chatbot.js, parseLoanRequestFallback)\<close>

record loan_data =
  amount :: jsval
  duration :: jsval
  purpose :: jsval
  expected_income :: jsval

text \<open>\<open>\d+(?:,\d{3})*(?:\.\d{2})?\<close>\<close>

definition number_re :: regex where
  "number_re =
     Seq (Plus Digit)
       (Seq (Star (Seq (Lit CHR '','') (Rep 3 Digit)))
            (Opt (Seq (Lit CHR ''.'') (Rep 2 Digit))))"

text \<open>\<open>/\$?(\d+(?:,\d{3})*(?:\.\d{2})?)/\<close>\<close>

definition amount_re :: regex where
  "amount_re = Seq (Opt (Lit CHR ''$'')) (Grp 1 number_re)"

text \<open>\<open>/(\d+)\s*(?:month|year)/i\<close>\<close>

definition duration_re :: regex where
  "duration_re =
     Seq (Grp 1 (Plus Digit)) (Seq (Star Space) (alts [lits ''month'', lits ''year'']))"

text \<open>\<open>(?:income|revenue|earnings?|profit|expected)\s*(?:of|is|will be|about)?\s*\$?\<close>\<close>

definition income_prefix_re :: regex where
  "income_prefix_re =
     Seq (alts [lits ''income'', lits ''revenue'', Seq (lits ''earning'') (Opt (Lit CHR ''s'')),
                lits ''profit'', lits ''expected''])
       (Seq (Star Space)
         (Seq (Opt (alts [lits ''of'', lits ''is'', lits ''will be'', lits ''about'']))
           (Seq (Star Space) (Opt (Lit CHR ''$'')))))"

text \<open>The income pattern of line 99: the prefix, then the number as the only capturing group.\<close>

definition income_re :: regex where
  "income_re = Seq income_prefix_re (Grp 1 number_re)"

text \<open>
  The list \<open>removePhrases\<close> (lines 104 to 112), all with the \<open>i\<close> flag and none with \<open>g\<close>.
  The sixth pattern keeps its group; the fifth and the seventh have none.
\<close>

definition removePhrases :: "regex list" where
  "removePhrases =
     [lits ''i need a loan for'',
      lits ''i want to borrow'',
      lits ''loan for'',
      lits ''borrow'',
      Seq (Opt (Lit CHR ''$'')) number_re,
      duration_re,
      Seq income_prefix_re number_re]"

text \<open>\<open>/^to\s+/i\<close> and \<open>/^for\s+/i\<close>\<close>

definition lead_to_re :: regex where
  "lead_to_re = Seq Bol (Seq (lits ''to'') (Plus Space))"

definition lead_for_re :: regex where
  "lead_for_re = Seq Bol (Seq (lits ''for'') (Plus Space))"

text \<open>
  \<open>purposePatterns\<close> (lines 127 to 130): \<open>/(?:for|to)\s+(.+)/i\<close> and
  \<open>/(?:start|open|build|buy|invest in)\s+(.+)/i\<close>.
\<close>

definition after_for_re :: regex where
  "after_for_re = Seq (alts [lits ''for'', lits ''to'']) (Seq (Plus Space) (Grp 1 (Plus Dot)))"

definition after_verb_re :: regex where
  "after_verb_re =
     Seq (alts [lits ''start'', lits ''open'', lits ''build'', lits ''buy'', lits ''invest in''])
         (Seq (Plus Space) (Grp 1 (Plus Dot)))"

definition purposePatterns :: "regex list" where
  "purposePatterns = [after_for_re, after_verb_re]"

text \<open>\<open>m && m[k] ? f(m[k]) : null\<close>\<close>

definition group_or_null :: "string option list option \<Rightarrow> nat \<Rightarrow> (string \<Rightarrow> jsval) \<Rightarrow> jsval" where
  "group_or_null m k f =
     (case m of
        None \<Rightarrow> JNull
      | Some arr \<Rightarrow>
          (case arr_get arr k of
             None \<Rightarrow> JNull
           | Some g \<Rightarrow> if g \<noteq> [] then f g else JNull))"

text \<open>
  The loop over \<open>purposePatterns\<close> (lines 132 to 138): the first pattern that matches
  the original text with a non-empty group sets the purpose and ends the loop;
  otherwise the purpose stays as it was.
\<close>

fun first_purpose :: "regex list \<Rightarrow> string \<Rightarrow> string \<Rightarrow> string" where
  "first_purpose [] text cur = cur"
| "first_purpose (pattern # ps) text cur =
     (case js_match True pattern text of
        None \<Rightarrow> first_purpose ps text cur
      | Some arr \<Rightarrow>
          (case arr_get arr 1 of
             None \<Rightarrow> first_purpose ps text cur
           | Some g \<Rightarrow> if g \<noteq> [] then js_trim g else first_purpose ps text cur))"

text \<open>
  Lines 103 to 143. Every value here is a string and none of the string operations
  throws, so the \<open>catch\<close> branch that would set the purpose to \<open>null\<close> is never taken
  and the purpose is a string throughout.
\<close>

definition extract_purpose :: "string \<Rightarrow> string" where
  "extract_purpose text =
     (let removed = fold (js_replace True) removePhrases text;
          stripped = js_replace True lead_for_re (js_replace True lead_to_re (js_trim removed))
      in if stripped = [] then first_purpose purposePatterns text stripped else stripped)"

definition empty_result :: loan_data where
  "empty_result = \<lparr>amount = JNull, duration = JNull, purpose = JNull, expected_income = JNum 0\<rparr>"

text \<open>Lines 88 to 145, for a text that has passed the check of line 83.\<close>

definition extract_fields :: "string \<Rightarrow> loan_data" where
  "extract_fields text =
     (let amountMatch = js_match False amount_re text;
          amountVal = group_or_null amountMatch 1 (\<lambda>g. parseFloat (remove_commas g));
          durationMatch = js_match True duration_re text;
          durationVal = group_or_null durationMatch 1 parseInt;
          incomeMatch = js_match True income_re text;
          expectedIncome = group_or_null incomeMatch 2 (\<lambda>g. parseFloat (remove_commas g))
      in \<lparr>amount = amountVal, duration = durationVal, purpose = JStr (extract_purpose text),
          expected_income = js_or expectedIncome (JNum 0)\<rparr>)"

text \<open>
  Lines 81 to 146. The check of line 83 is \<open>!text || typeof text !== 'string'\<close>; a value
  that passes it is a string, so the last case is never reached.
\<close>

definition parseLoanRequestFallback :: "jsval \<Rightarrow> loan_data" where
  "parseLoanRequestFallback v =
     (if \<not> truthy v \<or> \<not> is_string v then empty_result
      else (case v of JStr text \<Rightarrow> extract_fields text | _ \<Rightarrow> empty_result))"

section \<open>The language-model interpreter (Chatbot.js, parseLoanRequestWithOllama)\<close>

datatype error = TypeError | SyntaxError | FetchFailed | HttpError

text \<open>A \<open>try\<close> block is a computation that ends in an error or a value.\<close>

definition bind_err :: "error + 'a \<Rightarrow> ('a \<Rightarrow> error + 'b) \<Rightarrow> error + 'b" where
  "bind_err m f = (case m of Inl e \<Rightarrow> Inl e | Inr x \<Rightarrow> f x)"

definition catch_err :: "error + 'a \<Rightarrow> (error \<Rightarrow> error + 'a) \<Rightarrow> error + 'a" where
  "catch_err m h = (case m of Inl e \<Rightarrow> h e | Inr x \<Rightarrow> Inr x)"

text \<open>
  What the \<open>fetch\<close> of line 37 comes to: the promise is rejected (no connection), or a
  response arrives with its \<open>ok\<close> flag and a body; \<open>response.json()\<close> gives the value of
  the body, or fails when the body is not JSON (\<open>None\<close>).
\<close>

datatype fetch_outcome = Rejected | Answered bool "jsval option"

text \<open>
  Reading a property \<open>v.k\<close>: a \<open>TypeError\<close> on \<open>null\<close> and \<open>undefined\<close>, the field of an
  object, and \<open>undefined\<close> where there is no such field. The keys read by the source are
  not properties of strings, arrays or the object prototype.
\<close>

definition js_get :: "jsval \<Rightarrow> string \<Rightarrow> error + jsval" where
  "js_get v k =
     (case v of
        JUndefined \<Rightarrow> Inl TypeError
      | JNull \<Rightarrow> Inl TypeError
      | JObj kvs \<Rightarrow> Inr (case map_of kvs k of Some x \<Rightarrow> x | None \<Rightarrow> JUndefined)
      | _ \<Rightarrow> Inr JUndefined)"

text \<open>\<open>data.message?.content || ''\<close> (line 58).\<close>

definition message_content :: "jsval \<Rightarrow> error + jsval" where
  "message_content data =
     bind_err (js_get data ''message'') (\<lambda>m.
       bind_err (if m = JUndefined \<or> m = JNull then Inr JUndefined else js_get m ''content'')
         (\<lambda>c. Inr (js_or c (JStr []))))"

text \<open>
  The inner \<open>try\<close> block (lines 62 to 68). \<open>content.trim()\<close> is a \<open>TypeError\<close> when the
  content is not a string. \<open>JSON.parse\<close> is the platform's parser, a parameter here: it
  gives the parsed value, or \<open>None\<close> where it throws a \<open>SyntaxError\<close>.
\<close>

definition parse_content :: "(string \<Rightarrow> jsval option) \<Rightarrow> jsval \<Rightarrow> error + loan_data" where
  "parse_content JSON_parse content =
     (case content of
        JStr c \<Rightarrow>
          (case JSON_parse (js_trim c) of
             None \<Rightarrow> Inl SyntaxError
           | Some parsed \<Rightarrow>
               bind_err (js_get parsed ''amount'') (\<lambda>a.
               bind_err (js_get parsed ''duration'') (\<lambda>d.
               bind_err (js_get parsed ''purpose'') (\<lambda>p.
               bind_err (js_get parsed ''expected_income'') (\<lambda>e.
                 Inr \<lparr>amount = js_or a JNull, duration = js_or d JNull,
                      purpose = js_or p JNull, expected_income = js_or e (JNum 0)\<rparr>)))))
      | _ \<Rightarrow> Inl TypeError)"

text \<open>
  Lines 23 to 79: the outer \<open>try\<close> holds the request, the status check, the reading of
  the body and the inner \<open>try\<close>; both \<open>catch\<close> blocks return the fallback extractor's
  result on the same text.
\<close>

definition parseLoanRequestWithOllama ::
    "(string \<Rightarrow> jsval option) \<Rightarrow> fetch_outcome \<Rightarrow> jsval \<Rightarrow> error + loan_data" where
  "parseLoanRequestWithOllama JSON_parse fetched text =
     catch_err
       (case fetched of
          Rejected \<Rightarrow> Inl FetchFailed
        | Answered ok body \<Rightarrow>
            if \<not> ok then Inl HttpError
            else (case body of
                    None \<Rightarrow> Inl SyntaxError
                  | Some data \<Rightarrow>
                      bind_err (message_content data) (\<lambda>content.
                        catch_err (parse_content JSON_parse content)
                          (\<lambda>jsonError. Inr (parseLoanRequestFallback text)))))
       (\<lambda>error. Inr (parseLoanRequestFallback text))"

section \<open>The submission gate (Chatbot.js, handleSubmit)\<close>

text \<open>
  The check of line 160 is \<open>!loanData.amount || !loanData.duration || !loanData.purpose\<close>;
  the request is complete when it is false.
\<close>

definition isComplete :: "loan_data \<Rightarrow> bool" where
  "isComplete loanData =
     (\<not> (\<not> truthy (amount loanData) \<or> \<not> truthy (duration loanData) \<or> \<not> truthy (purpose loanData)))"

text \<open>
  The messages that \<open>handleSubmit\<close> appends to the transcript: the user's text, the
  request for clarification (line 163), the notice that the request is being processed
  (line 171), the notice that it has been processed (line 178), and the error notice
  (line 185).
\<close>

datatype chat_message =
    UserMessage string
  | BotClarify
  | BotProcessing loan_data
  | BotProcessed
  | BotError error

record submit_result =
  appended :: "chat_message list"
  submitted :: "loan_data option"

text \<open>
  Lines 148 to 190. \<open>onLoanRequest\<close> is the callback of the parent component; it
  resolves (\<open>None\<close>) or throws. \<open>submitted\<close> is the argument it was called with, if it
  was called.
\<close>

definition handleSubmit ::
    "(string \<Rightarrow> jsval option) \<Rightarrow> fetch_outcome \<Rightarrow> (loan_data \<Rightarrow> error option) \<Rightarrow> string
      \<Rightarrow> submit_result" where
  "handleSubmit JSON_parse fetched onLoanRequest inputValue =
     (if js_trim inputValue = [] then \<lparr>appended = [], submitted = None\<rparr>
      else
        let userMessage = js_trim inputValue in
        (case parseLoanRequestWithOllama JSON_parse fetched (JStr userMessage) of
           Inl e \<Rightarrow> \<lparr>appended = [UserMessage userMessage, BotError e], submitted = None\<rparr>
         | Inr loanData \<Rightarrow>
             if \<not> isComplete loanData
             then \<lparr>appended = [UserMessage userMessage, BotClarify], submitted = None\<rparr>
             else (case onLoanRequest loanData of
                     None \<Rightarrow>
                       \<lparr>appended = [UserMessage userMessage, BotProcessing loanData, BotProcessed],
                        submitted = Some loanData\<rparr>
                   | Some e \<Rightarrow>
                       \<lparr>appended = [UserMessage userMessage, BotProcessing loanData, BotError e],
                        submitted = Some loanData\<rparr>)))"

section \<open>Offers and their ranking (App.js, the best-offers list)\<close>

record offer =
  amount_approved :: rat
  interest_rate :: rat
  carbon_adjusted_rate :: rat
  repayment_period :: nat
  esg_summary :: string

text \<open>
  An entry of the offers list. Its \<open>offer\<close> field is \<open>None\<close> when it is \<open>undefined\<close>,
  which a negotiation can leave behind (see \<open>handleNegotiate\<close> below).
\<close>

record bank_offer =
  bank_id :: string
  bank_name :: string
  offer :: "offer option"

text \<open>
  \<open>.filter(offerData => offerData.offer.amount_approved > 0)\<close> (line 112): reading
  \<open>amount_approved\<close> of a missing offer is a \<open>TypeError\<close>. An entry that passes is kept
  together with the offer that was read.
\<close>

fun filter_approved :: "bank_offer list \<Rightarrow> error + (bank_offer \<times> offer) list" where
  "filter_approved [] = Inr []"
| "filter_approved (offerData # rest) =
     (case offer offerData of
        None \<Rightarrow> Inl TypeError
      | Some ofr \<Rightarrow>
          bind_err (filter_approved rest) (\<lambda>kept.
            Inr (if amount_approved ofr > 0 then (offerData, ofr) # kept else kept)))"

text \<open>The comparator of lines 113 to 118; a negative result puts \<open>a\<close> first.\<close>

definition compare_offers :: "bank_offer \<times> offer \<Rightarrow> bank_offer \<times> offer \<Rightarrow> rat" where
  "compare_offers a b =
     (if amount_approved (snd b) \<noteq> amount_approved (snd a)
      then amount_approved (snd b) - amount_approved (snd a)
      else interest_rate (snd a) - interest_rate (snd b))"

text \<open>
  \<open>Array.prototype.sort\<close> with a comparator is a stable sort: an element is placed
  before the first later element that it does not have to follow.
\<close>

fun insert_sorted :: "('a \<Rightarrow> 'a \<Rightarrow> rat) \<Rightarrow> 'a \<Rightarrow> 'a list \<Rightarrow> 'a list" where
  "insert_sorted cmp x [] = [x]"
| "insert_sorted cmp x (y # ys) =
     (if cmp x y \<le> 0 then x # y # ys else y # insert_sorted cmp x ys)"

definition js_sort :: "('a \<Rightarrow> 'a \<Rightarrow> rat) \<Rightarrow> 'a list \<Rightarrow> 'a list" where
  "js_sort cmp xs = foldr (insert_sorted cmp) xs []"

text \<open>
  An item of the rendered list: the entry, the offer shown, and whether it carries the
  \<open>recommended\<close> class and badge (lines 121 and 124).
\<close>

record ranked =
  entry :: bank_offer
  shown :: offer
  recommended :: bool

text \<open>Lines 111 to 121: filter, sort, the first three, and the mark.\<close>

definition rank :: "bank_offer list \<Rightarrow> string \<Rightarrow> error + ranked list" where
  "rank offers selected_bank =
     bind_err (filter_approved offers) (\<lambda>approved.
       Inr (map (\<lambda>(offerData, ofr).
                  \<lparr>entry = offerData, shown = ofr,
                   recommended = (bank_id offerData = selected_bank)\<rparr>)
              (take 3 (js_sort compare_offers approved))))"

section \<open>Negotiation (OffersGrid.js, handleNegotiate)\<close>

text \<open>The body sent to the negotiation endpoint (lines 18 to 22).\<close>

record negotiate_request =
  req_bank_id :: string
  current_offer :: offer
  target_rate :: rat

text \<open>
  The fields that the source reads of the endpoint's answer. \<open>agreed\<close> is the
  truthiness of \<open>result.agreed\<close>; a field that is absent is \<open>None\<close>.
\<close>

record negotiate_result =
  agreed :: bool
  updated_offer :: "offer option"
  new_rate :: "rat option"
  reason :: "string option"

text \<open>
  What the \<open>fetch\<close> of line 13 comes to: the promise is rejected, or a response arrives
  with its \<open>ok\<close> flag and a body, which is \<open>None\<close> when \<open>response.json()\<close> fails or gives
  \<open>null\<close> (reading \<open>result.agreed\<close> then throws).
\<close>

datatype negotiate_reply = NoReply | Reply bool "negotiate_result option"

text \<open>Decimal digits of a natural number, and \<open>x.toFixed(2)\<close> for a number below \<open>10^21\<close>.\<close>

definition digit_char :: "nat \<Rightarrow> char" where
  "digit_char d = ''0123456789'' ! (d mod 10)"

fun show_nat :: "nat \<Rightarrow> string" where
  "show_nat n = (if n < 10 then [digit_char n] else show_nat (n div 10) @ [digit_char n])"

declare show_nat.simps [simp del]

definition toFixed2 :: "rat \<Rightarrow> string" where
  "toFixed2 x =
     (let n = nat \<lfloor>\<bar>x\<bar> * 100 + 1 / 2\<rfloor>
      in (if x < 0 then ''-'' else []) @ show_nat (n div 100) @ ''.'' @
         [digit_char (n div 10), digit_char n])"

text \<open>The notifications of lines 31, 33, 36 and 40: a message and its type.\<close>

definition note_success :: "rat option \<Rightarrow> string \<times> string" where
  "note_success rate =
     (''Negotiation successful! New interest rate: '' @
        (case rate of None \<Rightarrow> ''NaN'' | Some r \<Rightarrow> toFixed2 (r * 100)) @ ''%'',
      ''success'')"

definition note_rejected :: "string option \<Rightarrow> string \<times> string" where
  "note_rejected why =
     (''Negotiation failed: '' @ (case why of None \<Rightarrow> ''undefined'' | Some t \<Rightarrow> t), ''error'')"

definition note_request_failed :: "string \<times> string" where
  "note_request_failed = (''Negotiation request failed'', ''error'')"

definition note_error :: "string \<times> string" where
  "note_error = (''Error during negotiation'', ''error'')"

text \<open>
  The effect of one call: the offers list afterwards, the notification shown, and the
  request that was sent, if one was.
\<close>

record negotiate_outcome =
  offers_after :: "bank_offer list"
  notification :: "string \<times> string"
  sent :: "negotiate_request option"

text \<open>
  Lines 7 to 43, for the offers list \<open>offers\<close> of the component. The endpoint is a
  function from the request to what comes back. Reading \<open>interest_rate\<close> of a missing
  offer, and writing to \<open>updatedOffers[index]\<close> beyond the end of the list, are
  \<open>TypeError\<close>s that the \<open>catch\<close> block reports. The write of line 29 replaces the
  \<open>offer\<close> field of the entry at \<open>index\<close> by \<open>result.updated_offer\<close>.
\<close>

definition handleNegotiate ::
    "(negotiate_request \<Rightarrow> negotiate_reply) \<Rightarrow> bank_offer list \<Rightarrow> bank_offer \<Rightarrow> nat
      \<Rightarrow> negotiate_outcome" where
  "handleNegotiate endpoint offers offerData index =
     (case offer offerData of
        None \<Rightarrow> \<lparr>offers_after = offers, notification = note_error, sent = None\<rparr>
      | Some cur \<Rightarrow>
          let currentRate = interest_rate cur;
              targetRate = currentRate - 5 / 1000;
              request = \<lparr>req_bank_id = bank_id offerData, current_offer = cur,
                         target_rate = targetRate\<rparr>
          in (case endpoint request of
                NoReply \<Rightarrow>
                  \<lparr>offers_after = offers, notification = note_error, sent = Some request\<rparr>
              | Reply ok body \<Rightarrow>
                  if ok then
                    (case body of
                       None \<Rightarrow>
                         \<lparr>offers_after = offers, notification = note_error, sent = Some request\<rparr>
                     | Some result \<Rightarrow>
                         if agreed result then
                           (if index < length offers
                            then \<lparr>offers_after =
                                     offers[index := (offers ! index)\<lparr>offer := updated_offer result\<rparr>],
                                   notification = note_success (new_rate result),
                                   sent = Some request\<rparr>
                            else \<lparr>offers_after = offers, notification = note_error,
                                   sent = Some request\<rparr>)
                         else \<lparr>offers_after = offers,
                                notification = note_rejected (reason result),
                                sent = Some request\<rparr>)
                  else \<lparr>offers_after = offers, notification = note_request_failed,
                         sent = Some request\<rparr>))"

section \<open>The negotiating flag (OffersGrid.js, lines 5, 8, 42 and 89)\<close>

text \<open>
  The component keeps one value \<open>negotiating\<close>: an index or \<open>null\<close>. The handlers run
  one at a time and each runs up to its \<open>await\<close>, so the component is a state machine
  over two events: a click on the button of an offer, and the settling of a call that
  is in flight. \<open>in_flight\<close> lists the indices of the calls that have been sent and
  have not settled yet.
\<close>

record grid_state =
  negotiating :: "nat option"
  in_flight :: "nat list"

datatype grid_event = Click nat | Settle nat

text \<open>\<open>disabled={negotiating === index}\<close> (line 89).\<close>

definition button_disabled :: "grid_state \<Rightarrow> nat \<Rightarrow> bool" where
  "button_disabled st index = (negotiating st = Some index)"

text \<open>
  A click on a disabled button does nothing. Otherwise \<open>handleNegotiate\<close> starts: it
  sets \<open>negotiating\<close> to the index (line 8) and, the entry having an offer, sends the
  request (line 13). When a call settles, its handler sets \<open>negotiating\<close> to \<open>null\<close>
  (line 42).
\<close>

fun grid_step :: "grid_state \<Rightarrow> grid_event \<Rightarrow> grid_state" where
  "grid_step st (Click index) =
     (if button_disabled st index then st
      else st\<lparr>negotiating := Some index, in_flight := index # in_flight st\<rparr>)"
| "grid_step st (Settle index) =
     (if index \<in> set (in_flight st)
      then st\<lparr>negotiating := None, in_flight := remove1 index (in_flight st)\<rparr>
      else st)"

definition grid_init :: grid_state where
  "grid_init = \<lparr>negotiating = None, in_flight = []\<rparr>"

definition grid_run :: "grid_event list \<Rightarrow> grid_state" where
  "grid_run evs = foldl grid_step grid_init evs"

section \<open>Orders and sample data used in the statements\<close>

text \<open>
  The order that the ranking is to produce: a greater approved amount first, and for
  equal amounts the lower or equal interest rate first.
\<close>

definition before :: "bank_offer \<times> offer \<Rightarrow> bank_offer \<times> offer \<Rightarrow> bool" where
  "before a b \<longleftrightarrow>
     amount_approved (snd a) > amount_approved (snd b) \<or>
     (amount_approved (snd a) = amount_approved (snd b) \<and>
      interest_rate (snd a) \<le> interest_rate (snd b))"

text \<open>Sample offers: only the bank, the approved amount and the rate vary.\<close>

definition example_offer :: "rat \<Rightarrow> rat \<Rightarrow> offer" where
  "example_offer amt rate =
     \<lparr>amount_approved = amt, interest_rate = rate, carbon_adjusted_rate = rate,
      repayment_period = 24, esg_summary = ''summary''\<rparr>"

definition example_entry :: "string \<Rightarrow> rat \<Rightarrow> rat \<Rightarrow> bank_offer" where
  "example_entry b amt rate =
     \<lparr>bank_id = b, bank_name = ''Bank '' @ b, offer = Some (example_offer amt rate)\<rparr>"

definition example_offers :: "bank_offer list" where
  "example_offers =
     [example_entry ''A'' 100000 (8 / 100),
      example_entry ''B'' 100000 (6 / 100),
      example_entry ''C'' 0 (5 / 100)]"

text \<open>The request that a negotiation of an entry with offer \<open>cur\<close> sends (lines 10 to 22).\<close>

definition request_for :: "bank_offer \<Rightarrow> offer \<Rightarrow> negotiate_request" where
  "request_for offerData cur =
     \<lparr>req_bank_id = bank_id offerData, current_offer = cur,
      target_rate = interest_rate cur - 5 / 1000\<rparr>"

text \<open>
  Sample endpoints: one that grants the rate asked for, one that agrees but returns an
  offer at 0.09, one that answers \<open>{agreed: true, new_rate: 0.065}\<close> and nothing else,
  one that declines with a reason, one that answers with an error status, and one that
  cannot be reached.
\<close>

definition endpoint_grants :: "negotiate_request \<Rightarrow> negotiate_reply" where
  "endpoint_grants request =
     Reply True (Some \<lparr>agreed = True,
       updated_offer = Some ((current_offer request)\<lparr>interest_rate := target_rate request\<rparr>),
       new_rate = Some (target_rate request), reason = None\<rparr>)"

definition endpoint_raises :: "negotiate_request \<Rightarrow> negotiate_reply" where
  "endpoint_raises request =
     Reply True (Some \<lparr>agreed = True,
       updated_offer = Some ((current_offer request)\<lparr>interest_rate := 9 / 100\<rparr>),
       new_rate = Some (9 / 100), reason = None\<rparr>)"


definition endpoint_declines :: "negotiate_request \<Rightarrow> negotiate_reply" where
  "endpoint_declines request =
     Reply True (Some \<lparr>agreed = False, updated_offer = None, new_rate = None,
       reason = Some ''rate too low''\<rparr>)"

definition endpoint_error_status :: "negotiate_request \<Rightarrow> negotiate_reply" where
  "endpoint_error_status request = Reply False None"

definition endpoint_unreachable :: "negotiate_request \<Rightarrow> negotiate_reply" where
  "endpoint_unreachable request = NoReply"

text \<open>
  One matcher state extends another when it lies further on in the same input: the
  input of the first is some consumed text followed by the input of the second, and
  the index has grown by the length of that text.
\<close>

definition extends :: "mstate \<Rightarrow> mstate \<Rightarrow> bool" where
  "extends st st' \<longleftrightarrow>
     (\<exists>m. fst (snd st) = m @ fst (snd st') \<and> fst st' = fst st + length m)"

text \<open>
  The remainder from which the purpose is taken, step by step: the first match of each
  of the seven patterns is cut out, in the order of \<open>removePhrases\<close>; the result is
  trimmed; a leading \<open>to\<close> and then a leading \<open>for\<close>, each with the white space after
  it, is cut off.
\<close>

definition purpose_remainder :: "string \<Rightarrow> string" where
  "purpose_remainder msg =
     js_replace True lead_for_re (js_replace True lead_to_re (js_trim
       (js_replace True (Seq income_prefix_re number_re)
       (js_replace True duration_re
       (js_replace True (Seq (Opt (Lit CHR ''$'')) number_re)
       (js_replace True (lits ''borrow'')
       (js_replace True (lits ''loan for'')
       (js_replace True (lits ''i want to borrow'')
       (js_replace True (lits ''i need a loan for'') msg)))))))))"

text \<open>
  The synthetic request of the round trip: amount \<open>x\<close>, duration \<open>y\<close>, purpose \<open>p\<close> and
  expected income \<open>z\<close>, the numbers written in decimal digits.
\<close>

definition round_trip_text :: "nat \<Rightarrow> nat \<Rightarrow> string \<Rightarrow> nat \<Rightarrow> string" where
  "round_trip_text x y p z =
     ''I need a loan for $'' @ show_nat x @ '' for '' @ show_nat y @ '' months to '' @ p @
     '' with expected income of $'' @ show_nat z"

text \<open>
  Sample surroundings of the interpreter: a \<open>JSON.parse\<close> that accepts \<open>{}\<close> only, a
  model answer whose content is \<open>{}\<close>, a model answer whose content is prose, and a
  parent callback that resolves.
\<close>

definition sample_JSON_parse :: "string \<Rightarrow> jsval option" where
  "sample_JSON_parse s = (if s = ''{}'' then Some (JObj []) else None)"

definition sample_answer :: fetch_outcome where
  "sample_answer =
     Answered True (Some (JObj [(''message'',
       JObj [(''role'', JStr ''assistant''), (''content'', JStr ''{}'')])]))"

definition sample_answer_prose :: fetch_outcome where
  "sample_answer_prose =
     Answered True (Some (JObj [(''message'',
       JObj [(''role'', JStr ''assistant''), (''content'', JStr ''Sure, here it is'')])]))"

definition onLoanRequest_resolves :: "loan_data \<Rightarrow> error option" where
  "onLoanRequest_resolves loanData = None"

section \<open>Properties of the fallback extractor\<close>

lemma fallback_string:
  "parseLoanRequestFallback (JStr s) = (if s = [] then empty_result else extract_fields s)"
  by (simp add: parseLoanRequestFallback_def)

text \<open>
  C10. An input that is \<open>null\<close>, \<open>undefined\<close> or not a string makes the fallback
  extractor return amount, duration and purpose \<open>null\<close> and expected income 0.
\<close>

theorem fallback_non_string:
  "\<not> is_string v \<Longrightarrow>
     parseLoanRequestFallback v =
       \<lparr>amount = JNull, duration = JNull, purpose = JNull, expected_income = JNum 0\<rparr>"
  by (simp add: parseLoanRequestFallback_def empty_result_def)

theorem fallback_non_string_witness:
  "\<not> is_string (JNum 42) \<and>
     parseLoanRequestFallback (JNum 42) =
       \<lparr>amount = JNull, duration = JNull, purpose = JNull, expected_income = JNum 0\<rparr>"
  using fallback_non_string [of "JNum 42"] by simp

section \<open>Properties of the matcher\<close>

lemma extends_refl: "extends st st"
  by (simp add: extends_def)

lemma extends_trans: "extends a b \<Longrightarrow> extends b c \<Longrightarrow> extends a c"
  by (auto simp: extends_def)

lemma step_class_extends: "st' \<in> set (step_class p st) \<Longrightarrow> extends st st'"
  by (cases "(p, st)" rule: step_class.cases) (auto simp: extends_def split: if_splits)

lemma star_iter_extends:
  assumes "\<And>st st'. st' \<in> set (f st) \<Longrightarrow> extends st st'"
  shows "st' \<in> set (star_iter f n st) \<Longrightarrow> extends st st'"
proof (induction n arbitrary: st)
  case 0
  then show ?case by (simp add: extends_refl)
next
  case (Suc n)
  from Suc.prems consider "st' = st"
    | mid where "mid \<in> set (f st)" "st' \<in> set (star_iter f n mid)"
    by (auto split: if_splits)
  then show ?case
  proof cases
    case 1
    then show ?thesis by (simp add: extends_refl)
  next
    case 2
    then show ?thesis using assms Suc.IH extends_trans by blast
  qed
qed

lemma rmatch_extends: "st' \<in> set (rmatch ic r st) \<Longrightarrow> extends st st'"
proof (induction r arbitrary: st st')
  case (Seq r1 r2)
  from Seq.prems obtain mid where "mid \<in> set (rmatch ic r1 st)" "st' \<in> set (rmatch ic r2 mid)"
    by auto
  then have "extends st mid" "extends mid st'"
    by (simp_all add: Seq.IH)
  then show ?case by (rule extends_trans)
next
  case (Star r)
  from Star.prems have "st' \<in> set (star_iter (rmatch ic r) (length (fst (snd st))) st)"
    by simp
  then show ?case by (rule star_iter_extends [rotated]) (rule Star.IH)
next
  case (Grp k r)
  from Grp.prems obtain j rest cs where inner: "(j, rest, cs) \<in> set (rmatch ic r st)"
    and st': "st' = (j, rest, (k, take (j - fst st) (fst (snd st))) # cs)"
    by auto
  from Grp.IH [OF inner] st' show ?case by (simp add: extends_def)
qed (auto simp: extends_refl step_class_extends split: if_splits)

lemma search_from_split:
  "search_from ic r i pre s = Some (pre', m, post, caps) \<Longrightarrow> pre @ s = pre' @ m @ post"
proof (induction ic r i pre s rule: search_from.induct)
  case (1 ic r i pre s)
  show ?case
  proof (cases "rmatch ic r (i, s, [])")
    case Nil
    with "1.prems" obtain x xs where s: "s = x # xs"
      and rec: "search_from ic r (Suc i) (pre @ [x]) xs = Some (pre', m, post, caps)"
      by (auto split: list.splits)
    from "1.IH" [OF Nil s rec] s show ?thesis by simp
  next
    case (Cons st sts)
    obtain j rest cs where st: "st = (j, rest, cs)" by (cases st) auto
    from Cons have "st \<in> set (rmatch ic r (i, s, []))" by simp
    then have "extends (i, s, []) st" by (rule rmatch_extends)
    with st obtain w where w: "s = w @ rest" "j = i + length w" by (auto simp: extends_def)
    from "1.prems" Cons st have "pre' = pre" "m = take (j - i) s" "post = rest"
      by simp_all
    with w show ?thesis by simp
  qed
qed

lemma search_split: "search ic r s = Some (pre, m, post, caps) \<Longrightarrow> s = pre @ m @ post"
  using search_from_split [of ic r 0 "[]" s pre m post caps] by (simp add: search_def)

lemma js_replace_cuts_once:
  "(search ic r s = None \<and> js_replace ic r s = s) \<or>
   (\<exists>pre m post caps. search ic r s = Some (pre, m, post, caps) \<and> s = pre @ m @ post \<and>
      js_replace ic r s = pre @ post)"
  by (cases "search ic r s") (auto simp: js_replace_def dest: search_split)

text \<open>
  The bound on the rounds of \<open>r*\<close> never cuts a match short: once the bound has reached
  the length of the remaining input, a larger bound gives the same result.
\<close>

lemma star_iter_bound:
  assumes "\<And>st st'. st' \<in> set (f st) \<Longrightarrow> extends st st'"
  shows "length (fst (snd st)) \<le> n \<Longrightarrow> star_iter f (Suc n) st = star_iter f n st"
proof (induction n arbitrary: st)
  case 0
  have "\<not> fst st < fst st'" if "st' \<in> set (f st)" for st'
    using assms [OF that] 0 by (auto simp: extends_def)
  then have "map (\<lambda>st'. if fst st < fst st' then star_iter f 0 st' else []) (f st) =
      map (\<lambda>st'. []) (f st)"
    by (intro map_cong) auto
  then show ?case by simp
next
  case (Suc n)
  have "(if fst st < fst st' then star_iter f (Suc n) st' else []) =
        (if fst st < fst st' then star_iter f n st' else [])" if "st' \<in> set (f st)" for st'
  proof (cases "fst st < fst st'")
    case True
    from assms [OF that] obtain m where m: "fst (snd st) = m @ fst (snd st')"
      "fst st' = fst st + length m"
      by (auto simp: extends_def)
    with True have "m \<noteq> []" by auto
    with m Suc.prems have "length (fst (snd st')) \<le> n" by (cases m) simp_all
    with True show ?thesis by (simp add: Suc.IH del: star_iter.simps)
  qed simp
  then have eq: "map (\<lambda>st'. if fst st < fst st' then star_iter f (Suc n) st' else []) (f st) =
      map (\<lambda>st'. if fst st < fst st' then star_iter f n st' else []) (f st)"
    by (intro map_cong) auto
  have "star_iter f (Suc (Suc n)) st =
      concat (map (\<lambda>st'. if fst st < fst st' then star_iter f (Suc n) st' else []) (f st)) @ [st]"
    by (rule star_iter.simps(2))
  also have "\<dots> =
      concat (map (\<lambda>st'. if fst st < fst st' then star_iter f n st' else []) (f st)) @ [st]"
    by (simp only: eq)
  also have "\<dots> = star_iter f (Suc n) st"
    by (rule star_iter.simps(2) [symmetric])
  finally show ?case .
qed

lemma star_iter_enough:
  assumes "\<And>st st'. st' \<in> set (f st) \<Longrightarrow> extends st st'"
  shows "star_iter f (length (fst (snd st)) + k) st = star_iter f (length (fst (snd st))) st"
  by (induction k) (simp_all add: star_iter_bound [OF assms] del: star_iter.simps)

lemma rmatch_star_any_bound:
  "length (fst (snd st)) \<le> n \<Longrightarrow> star_iter (rmatch ic r) n st = rmatch ic (Star r) st"
  using star_iter_enough [of "rmatch ic r" st "n - length (fst (snd st))"]
  by (simp add: rmatch_extends)

lemma search_from_origin:
  "search_from ic r i pre s = Some (pre', m, post, caps) \<Longrightarrow>
     \<exists>i' s' j. (j, post, caps) \<in> set (rmatch ic r (i', s', []))"
proof (induction ic r i pre s rule: search_from.induct)
  case (1 ic r i pre s)
  show ?case
  proof (cases "rmatch ic r (i, s, [])")
    case Nil
    with "1.prems" obtain x xs where s: "s = x # xs"
      and rec: "search_from ic r (Suc i) (pre @ [x]) xs = Some (pre', m, post, caps)"
      by (auto split: list.splits)
    from "1.IH" [OF Nil s rec] show ?thesis .
  next
    case (Cons st sts)
    obtain j rest cs where st: "st = (j, rest, cs)" by (cases st) auto
    from "1.prems" Cons st have "post = rest" "caps = cs" by simp_all
    with Cons st have "(j, post, caps) \<in> set (rmatch ic r (i, s, []))" by simp
    then show ?thesis by blast
  qed
qed

lemma plus_dot_consumes:
  assumes "(j, rest, cs) \<in> set (rmatch ic (Plus Dot) st)"
  shows "take (j - fst st) (fst (snd st)) \<noteq> []"
proof -
  from assms obtain mid where mid: "mid \<in> set (step_class is_dot st)"
    and fin: "(j, rest, cs) \<in> set (rmatch ic (Star Dot) mid)"
    by (auto simp: Plus_def)
  from mid have "fst mid = Suc (fst st)" "fst (snd st) \<noteq> []"
    by (cases "(is_dot, st)" rule: step_class.cases; auto split: if_splits)+
  moreover from fin have "extends mid (j, rest, cs)" by (rule rmatch_extends)
  ultimately show ?thesis by (auto simp: extends_def)
qed

lemma captured_rest:
  assumes "st' \<in> set (rmatch ic (Seq a (Seq b (Grp k (Plus Dot)))) st)"
  shows "\<exists>g cs. snd (snd st') = (k, g) # cs \<and> g \<noteq> []"
proof -
  from assms obtain st2 j rest cs where "(j, rest, cs) \<in> set (rmatch ic (Plus Dot) st2)"
    and "st' = (j, rest, (k, take (j - fst st2) (fst (snd st2))) # cs)"
    by auto
  then show ?thesis using plus_dot_consumes by fastforce
qed

lemma ngroups_after_for_re: "ngroups after_for_re = 1"
  by code_simp

lemma ngroups_after_verb_re: "ngroups after_verb_re = 1"
  by code_simp

lemma js_match_captured_rest:
  assumes "js_match ic (Seq a (Seq b (Grp 1 (Plus Dot)))) s = Some arr"
    and "ngroups (Seq a (Seq b (Grp 1 (Plus Dot)))) = 1"
  shows "\<exists>w g. arr = [Some w, Some g] \<and> g \<noteq> []"
proof -
  let ?p = "Seq a (Seq b (Grp 1 (Plus Dot)))"
  from assms(1) obtain pre m post caps where found: "search ic ?p s = Some (pre, m, post, caps)"
    and arr: "arr = Some m # map (map_of caps) [1 ..< Suc (ngroups ?p)]"
    by (auto simp: js_match_def split: option.splits)
  from found obtain i' s' j where "(j, post, caps) \<in> set (rmatch ic ?p (i', s', []))"
    unfolding search_def by (blast dest: search_from_origin)
  then obtain g cs where "caps = (1, g) # cs" "g \<noteq> []"
    using captured_rest [of "(j, post, caps)" ic a b 1 "(i', s', [])"] by auto
  with arr assms(2) show ?thesis by simp
qed

lemma after_for_captures:
  "js_match True after_for_re s = Some arr \<Longrightarrow> \<exists>w g. arr = [Some w, Some g] \<and> g \<noteq> []"
  using js_match_captured_rest [of True _ _ s arr] ngroups_after_for_re
  unfolding after_for_re_def by blast

lemma after_verb_captures:
  "js_match True after_verb_re s = Some arr \<Longrightarrow> \<exists>w g. arr = [Some w, Some g] \<and> g \<noteq> []"
  using js_match_captured_rest [of True _ _ s arr] ngroups_after_verb_re
  unfolding after_verb_re_def by blast

section \<open>The round trip of a synthetic request\<close>

lemma js_match_length:
  "js_match ic r s = Some arr \<Longrightarrow> length arr = Suc (ngroups r)"
  by (auto simp: js_match_def split: option.splits)

lemma ngroups_income_re: "ngroups income_re = 1"
  by code_simp

lemma fallback_income_always_zero:
  "expected_income (parseLoanRequestFallback v) = JNum 0"
proof (cases v)
  case (JStr s)
  have "group_or_null (js_match True income_re s) 2 f = JNull" for f
    using js_match_length [of True income_re s]
    by (auto simp: group_or_null_def arr_get_def ngroups_income_re split: option.splits)
  then show ?thesis
    by (simp add: JStr fallback_string extract_fields_def empty_result_def js_or_def Let_def)
qed (simp_all add: parseLoanRequestFallback_def empty_result_def)

text \<open>Repetition over a character class, one code unit at a time.\<close>

lemma star_iter_class_Cons:
  "star_iter (step_class p) (Suc n) (i, x # xs, caps) =
     (if p x then star_iter (step_class p) n (Suc i, xs, caps) @ [(i, x # xs, caps)]
      else [(i, x # xs, caps)])"
  by simp

lemma rmatch_star_class_Nil:
  "rmatch ic (Star Digit) (i, [], caps) = [(i, [], caps)]"
  "rmatch ic (Star Space) (i, [], caps) = [(i, [], caps)]"
  "rmatch ic (Star Dot) (i, [], caps) = [(i, [], caps)]"
  by simp_all

lemma rmatch_class_eta:
  "rmatch ic Digit = step_class is_digit"
  "rmatch ic Space = step_class is_space"
  "rmatch ic Dot = step_class is_dot"
  by (rule ext, simp)+

lemma rmatch_star_digit_Cons:
  "rmatch ic (Star Digit) (i, x # xs, caps) =
     (if is_digit x then rmatch ic (Star Digit) (Suc i, xs, caps) @ [(i, x # xs, caps)]
      else [(i, x # xs, caps)])"
  by (simp add: rmatch_class_eta del: star_iter.simps add: star_iter_class_Cons)

lemma rmatch_star_space_Cons:
  "rmatch ic (Star Space) (i, x # xs, caps) =
     (if is_space x then rmatch ic (Star Space) (Suc i, xs, caps) @ [(i, x # xs, caps)]
      else [(i, x # xs, caps)])"
  by (simp add: rmatch_class_eta del: star_iter.simps add: star_iter_class_Cons)

lemma rmatch_star_digits_first:
  assumes "list_all is_digit ds" and "r = [] \<or> \<not> is_digit (hd r)"
  shows "\<exists>tl. rmatch ic (Star Digit) (i, ds @ r, caps) = (i + length ds, r, caps) # tl"
  using assms
proof (induction ds arbitrary: i)
  case Nil
  then show ?case
    by (cases r) (simp_all add: rmatch_star_digit_Cons rmatch_star_class_Nil del: rmatch.simps)
next
  case (Cons d ds)
  from Cons.IH [of "Suc i"] Cons.prems obtain tl where
    "rmatch ic (Star Digit) (Suc i, ds @ r, caps) = (Suc i + length ds, r, caps) # tl"
    by auto
  with Cons.prems show ?case
    by (simp add: rmatch_star_digit_Cons del: rmatch.simps)
qed

lemma rmatch_star_digits_set:
  assumes "list_all is_digit ds" and "r = [] \<or> \<not> is_digit (hd r)"
  shows "set (rmatch ic (Star Digit) (i, ds @ r, caps)) =
           {(i + k, drop k ds @ r, caps) | k. k \<le> length ds}"
  using assms
proof (induction ds arbitrary: i)
  case Nil
  then show ?case
    by (cases r) (simp_all add: rmatch_star_digit_Cons rmatch_star_class_Nil del: rmatch.simps)
next
  case (Cons d ds)
  have "{(i + k, drop k (d # ds) @ r, caps) | k. k \<le> length (d # ds)} =
        insert (i, (d # ds) @ r, caps) {(Suc i + k, drop k ds @ r, caps) | k. k \<le> length ds}"
    (is "?A = ?B")
  proof
    show "?A \<subseteq> ?B"
    proof
      fix x assume "x \<in> ?A"
      then obtain k where k: "k \<le> length (d # ds)" "x = (i + k, drop k (d # ds) @ r, caps)"
        by blast
      then show "x \<in> ?B" by (cases k) auto
    qed
    show "?B \<subseteq> ?A"
    proof
      fix x assume "x \<in> ?B"
      then consider "x = (i, (d # ds) @ r, caps)"
        | k where "k \<le> length ds" "x = (Suc i + k, drop k ds @ r, caps)"
        by blast
      then show "x \<in> ?A"
      proof cases
        case 1
        then have "x = (i + 0, drop 0 (d # ds) @ r, caps)" by simp
        then show ?thesis by blast
      next
        case 2
        then have "Suc k \<le> length (d # ds)" "x = (i + Suc k, drop (Suc k) (d # ds) @ r, caps)"
          by simp_all
        then show ?thesis by blast
      qed
    qed
  qed
  with Cons show ?case
    by (simp add: rmatch_star_digit_Cons del: rmatch.simps)
qed

lemma digit_not_space: "is_digit d \<Longrightarrow> \<not> is_space d"
  by (auto simp: is_digit_def is_space_def)

lemma digit_not_letter:
  "is_digit d \<Longrightarrow> canon ic d \<noteq> canon ic CHR ''m''"
  "is_digit d \<Longrightarrow> canon ic d \<noteq> canon ic CHR ''y''"
  by (auto simp: is_digit_def canon_def upper_ascii_def)

lemma concat_map_empty: "(\<And>x. x \<in> set xs \<Longrightarrow> f x = []) \<Longrightarrow> concat (map f xs) = []"
  by (induction xs) auto

text \<open>The rest of the duration pattern, after the digits.\<close>

lemma duration_tail_digit:
  "is_digit d \<Longrightarrow>
     rmatch True (Seq (Star Space) (alts [lits ''month'', lits ''year''])) (j, d # xs, caps) = []"
  by (simp add: rmatch_star_space_Cons digit_not_space digit_not_letter del: rmatch.simps(9))

lemma duration_tail_for:
  "rmatch True (Seq (Star Space) (alts [lits ''month'', lits ''year'']))
     (j, '' for '' @ xs, caps) = []"
  by (simp add: rmatch_star_space_Cons is_space_def canon_def upper_ascii_def del: rmatch.simps(9))

lemma duration_tail_month:
  "\<exists>tl. rmatch True (Seq (Star Space) (alts [lits ''month'', lits ''year'']))
     (j, '' month'' @ xs, caps) = (j + 6, xs, caps) # tl"
  by (simp add: rmatch_star_space_Cons is_space_def canon_def upper_ascii_def del: rmatch.simps(9))

lemma search_from_fail:
  "rmatch ic r (i, x # xs, []) = [] \<Longrightarrow>
     search_from ic r i pre (x # xs) = search_from ic r (Suc i) (pre @ [x]) xs"
  by simp

lemma search_from_hit:
  "rmatch ic r (i, s, []) = (j, rest, caps) # others \<Longrightarrow>
     search_from ic r i pre s = Some (pre, take (j - i) s, rest, caps)"
  by simp

lemma search_from_skip:
  "(\<And>k. k < length a \<Longrightarrow> rmatch ic r (i + k, drop k a @ b, []) = []) \<Longrightarrow>
     search_from ic r i pre (a @ b) = search_from ic r (i + length a) (pre @ a) b"
proof (induction a arbitrary: i pre)
  case Nil
  then show ?case by simp
next
  case (Cons x a)
  from Cons.prems [of 0] have "rmatch ic r (i, x # a @ b, []) = []" by simp
  then have "search_from ic r i pre ((x # a) @ b) = search_from ic r (Suc i) (pre @ [x]) (a @ b)"
    by (simp del: search_from.simps add: search_from_fail)
  also have "\<dots> = search_from ic r (Suc i + length a) ((pre @ [x]) @ a) b"
  proof (rule Cons.IH)
    fix k assume "k < length a"
    then show "rmatch ic r (Suc i + k, drop k a @ b, []) = []"
      using Cons.prems [of "Suc k"] by simp
  qed
  finally show ?case by simp
qed

lemma rmatch_plus_digit:
  "is_digit d \<Longrightarrow>
     rmatch ic (Plus Digit) (i, d # xs, caps) = rmatch ic (Star Digit) (Suc i, xs, caps)"
  by (simp add: Plus_def del: rmatch.simps(9))

lemma duration_re_in_digits:
  assumes "list_all is_digit (d # ds)"
  shows "rmatch True duration_re (i, (d # ds) @ '' for '' @ t, []) = []"
proof -
  let ?tail = "Seq (Star Space) (alts [lits ''month'', lits ''year''])"
  let ?r = "'' for '' @ t"
  have stops: "?r = [] \<or> \<not> is_digit (hd ?r)" by (simp add: is_digit_def)
  from assms have ds: "list_all is_digit ds" and d: "is_digit d" by simp_all
  have "rmatch True ?tail st = []"
    if "st \<in> set (rmatch True (Grp 1 (Plus Digit)) (i, (d # ds) @ ?r, []))" for st
  proof -
    from that d obtain j rest cs where
      inner: "(j, rest, cs) \<in> set (rmatch True (Star Digit) (Suc i, ds @ ?r, []))"
      and st: "st = (j, rest, (1, take (j - i) ((d # ds) @ ?r)) # cs)"
      by (auto simp: rmatch_plus_digit simp del: rmatch.simps(9))
    from inner obtain k where k: "k \<le> length ds" "rest = drop k ds @ ?r"
      unfolding rmatch_star_digits_set [OF ds stops] by auto
    show ?thesis
    proof (cases "k < length ds")
      case True
      then have "drop k ds = ds ! k # drop (Suc k) ds" by (simp add: Cons_nth_drop_Suc)
      moreover from True ds have "is_digit (ds ! k)" by (simp add: list_all_length)
      ultimately show ?thesis
        using st k duration_tail_digit [of "ds ! k" j "drop (Suc k) ds @ ?r"] by simp
    next
      case False
      with k have "rest = ?r" by simp
      with st show ?thesis using duration_tail_for [of j t] by simp
    qed
  qed
  then show ?thesis
    by (simp add: duration_re_def concat_map_empty del: rmatch.simps(9, 10) append_Cons)
qed

lemma seq_first:
  assumes "rmatch ic r1 st = a # o1" and "rmatch ic r2 a = b # o2"
  shows "\<exists>others. rmatch ic (Seq r1 r2) st = b # others"
  using assms by simp

lemma grp_first:
  assumes "rmatch ic r st = (j, rest, caps) # o1"
  shows "\<exists>others. rmatch ic (Grp k r) st =
           (j, rest, (k, take (j - fst st) (fst (snd st))) # caps) # others"
  using assms by simp

lemma plus_digit_first:
  assumes "list_all is_digit (d # ds)" and "r = [] \<or> \<not> is_digit (hd r)"
  shows "\<exists>others. rmatch ic (Plus Digit) (i, (d # ds) @ r, caps) =
           (i + length (d # ds), r, caps) # others"
proof -
  from assms have ds: "list_all is_digit ds" and d: "is_digit d" by simp_all
  from rmatch_star_digits_first [OF ds assms(2), of ic "Suc i" caps] d show ?thesis
    by (simp add: rmatch_plus_digit del: rmatch.simps(9))
qed

lemma duration_re_at_digits:
  assumes "list_all is_digit (d # ds)"
  shows "\<exists>others. rmatch True duration_re (i, (d # ds) @ '' month'' @ t, []) =
           (i + length (d # ds) + 6, t, [(1, d # ds)]) # others"
proof -
  let ?tail = "Seq (Star Space) (alts [lits ''month'', lits ''year''])"
  let ?r = "'' month'' @ t"
  let ?st = "(i, (d # ds) @ ?r, [])"
  have stops: "?r = [] \<or> \<not> is_digit (hd ?r)" by (simp add: is_digit_def)
  from plus_digit_first [OF assms stops, of True i "[]"] obtain o1 where
    "rmatch True (Plus Digit) ?st = (i + length (d # ds), ?r, []) # o1"
    by blast
  from grp_first [OF this, of 1] obtain o2 where
    "rmatch True (Grp 1 (Plus Digit)) ?st =
       (i + length (d # ds), ?r, [(1, take (i + length (d # ds) - i) ((d # ds) @ ?r))]) # o2"
    by auto
  then have g: "rmatch True (Grp 1 (Plus Digit)) ?st = (i + length (d # ds), ?r, [(1, d # ds)]) # o2"
    by simp
  from duration_tail_month [of "i + length (d # ds)" t "[(1, d # ds)]"] obtain o3 where
    t: "rmatch True ?tail (i + length (d # ds), ?r, [(1, d # ds)]) =
       (i + length (d # ds) + 6, t, [(1, d # ds)]) # o3"
    by blast
  from seq_first [OF g t] show ?thesis
    unfolding duration_re_def .
qed

lemma number_re_at_digits:
  assumes "list_all is_digit (d # ds)"
  shows "\<exists>others. rmatch ic number_re (i, (d # ds) @ CHR '' '' # t, caps) =
           (i + length (d # ds), CHR '' '' # t, caps) # others"
proof -
  let ?r = "CHR '' '' # t"
  let ?after = "Seq (Star (Seq (Lit CHR '','') (Rep 3 Digit)))
                  (Opt (Seq (Lit CHR ''.'') (Rep 2 Digit)))"
  have stops: "?r = [] \<or> \<not> is_digit (hd ?r)" by (simp add: is_digit_def)
  from plus_digit_first [OF assms stops, of ic i caps] obtain o1 where
    p: "rmatch ic (Plus Digit) (i, (d # ds) @ ?r, caps) = (i + length (d # ds), ?r, caps) # o1"
    by blast
  have a: "rmatch ic ?after (j, ?r, caps) = (j, ?r, caps) # []" for j
    by (simp add: Opt_def canon_def upper_ascii_def)
  from seq_first [OF p a] show ?thesis
    unfolding number_re_def .
qed

lemma amount_re_at_dollar:
  assumes "list_all is_digit (d # ds)"
  shows "\<exists>others. rmatch False amount_re (i, CHR ''$'' # (d # ds) @ CHR '' '' # t, []) =
           (Suc i + length (d # ds), CHR '' '' # t, [(1, d # ds)]) # others"
proof -
  let ?s = "(d # ds) @ CHR '' '' # t"
  from number_re_at_digits [OF assms, of False "Suc i" t "[]"] obtain o1 where
    "rmatch False number_re (Suc i, ?s, []) = (Suc i + length (d # ds), CHR '' '' # t, []) # o1"
    by blast
  from grp_first [OF this, of 1] obtain o2 where
    "rmatch False (Grp 1 number_re) (Suc i, ?s, []) =
       (Suc i + length (d # ds), CHR '' '' # t,
        [(1, take (Suc i + length (d # ds) - Suc i) ?s)]) # o2"
    by auto
  then have g: "rmatch False (Grp 1 number_re) (Suc i, ?s, []) =
       (Suc i + length (d # ds), CHR '' '' # t, [(1, d # ds)]) # o2"
    by simp
  have o: "rmatch False (Opt (Lit CHR ''$'')) (i, CHR ''$'' # ?s, []) =
       (Suc i, ?s, []) # [(i, CHR ''$'' # ?s, [])]"
    by (simp add: Opt_def canon_def)
  from seq_first [OF o g] show ?thesis
    unfolding amount_re_def .
qed

lemma amount_re_fail:
  "c \<noteq> CHR ''$'' \<Longrightarrow> \<not> is_digit c \<Longrightarrow> rmatch False amount_re (i, c # xs, []) = []"
  by (simp add: amount_re_def Opt_def number_re_def Plus_def canon_def)

lemma duration_re_fail:
  "\<not> is_digit c \<Longrightarrow> rmatch True duration_re (i, c # xs, []) = []"
  by (simp add: duration_re_def Plus_def)

lemma ngroups_amount_re: "ngroups amount_re = 1"
  by code_simp

lemma ngroups_duration_re: "ngroups duration_re = 1"
  by code_simp

lemma amount_search_at_dollar:
  assumes "list_all is_digit (d # ds)"
  shows "search_from False amount_re i pre (CHR ''$'' # (d # ds) @ CHR '' '' # t) =
           Some (pre, CHR ''$'' # d # ds, CHR '' '' # t, [(1, d # ds)])"
proof -
  from amount_re_at_dollar [OF assms, of i t] obtain others where
    hit: "rmatch False amount_re (i, CHR ''$'' # (d # ds) @ CHR '' '' # t, []) =
       (Suc i + length (d # ds), CHR '' '' # t, [(1, d # ds)]) # others"
    by blast
  have "search_from False amount_re i pre (CHR ''$'' # (d # ds) @ CHR '' '' # t) =
        Some (pre, take (Suc i + length (d # ds) - i) (CHR ''$'' # (d # ds) @ CHR '' '' # t),
              CHR '' '' # t, [(1, d # ds)])"
    by (rule search_from_hit [OF hit])
  then show ?thesis by (simp del: search_from.simps)
qed

lemma amount_search:
  assumes "list_all is_digit (d # ds)"
  shows "search False amount_re (''I need a loan for $'' @ (d # ds) @ CHR '' '' # t) =
           Some (''I need a loan for '', CHR ''$'' # d # ds, CHR '' '' # t, [(1, d # ds)])"
  using amount_search_at_dollar [OF assms]
  by (simp add: search_def search_from_fail amount_re_fail is_digit_def
      del: search_from.simps)

lemma take_prefix: "n = length a \<Longrightarrow> take n (a @ b) = a"
  by simp

lemma duration_search_at_digits:
  assumes "list_all is_digit (d # ds)"
  shows "search_from True duration_re i pre ((d # ds) @ '' month'' @ t) =
           Some (pre, (d # ds) @ '' month'', t, [(1, d # ds)])"
proof -
  from duration_re_at_digits [OF assms, of i t] obtain others where
    hit: "rmatch True duration_re (i, (d # ds) @ '' month'' @ t, []) =
       (i + length (d # ds) + 6, t, [(1, d # ds)]) # others"
    by blast
  have "take (i + length (d # ds) + 6 - i) (((d # ds) @ '' month'') @ t) = (d # ds) @ '' month''"
    by (rule take_prefix) simp
  then have "take (i + length (d # ds) + 6 - i) ((d # ds) @ '' month'' @ t) = (d # ds) @ '' month''"
    by (simp only: append_assoc)
  with search_from_hit [OF hit, of pre] show ?thesis
    by (simp only:)
qed

lemma duration_search_skip_digits:
  assumes "list_all is_digit xs"
  shows "search_from True duration_re i pre (xs @ '' for '' @ t) =
         search_from True duration_re (i + length xs) (pre @ xs) ('' for '' @ t)"
proof (rule search_from_skip)
  fix k assume k: "k < length xs"
  then have "drop k xs = xs ! k # drop (Suc k) xs" by (simp add: Cons_nth_drop_Suc)
  moreover from assms k have "list_all is_digit (xs ! k # drop (Suc k) xs)"
    by (metis calculation list_all_append append_take_drop_id)
  ultimately show "rmatch True duration_re (i + k, drop k xs @ '' for '' @ t, []) = []"
    using duration_re_in_digits [of "xs ! k" "drop (Suc k) xs" "i + k" t] by simp
qed

lemma duration_search_at_for:
  assumes "list_all is_digit (d # ds)"
  shows "search_from True duration_re i pre ('' for '' @ (d # ds) @ '' month'' @ t) =
           Some (pre @ '' for '', (d # ds) @ '' month'', t, [(1, d # ds)])"
  using duration_search_at_digits [OF assms]
  by (simp add: search_from_fail duration_re_fail is_digit_def del: search_from.simps)

lemma duration_search_at_amount:
  assumes "list_all is_digit xs" and "list_all is_digit (d # ds)"
  shows "search_from True duration_re i pre (xs @ '' for '' @ (d # ds) @ '' month'' @ t) =
           Some (pre @ xs @ '' for '', (d # ds) @ '' month'', t, [(1, d # ds)])"
  using duration_search_skip_digits [OF assms(1), of i pre "(d # ds) @ '' month'' @ t"]
    duration_search_at_for [OF assms(2), of "i + length xs" "pre @ xs" t]
  by (simp only: append_assoc)

lemma duration_search:
  assumes "list_all is_digit xs" and "list_all is_digit (d # ds)"
  shows "search True duration_re
           (''I need a loan for $'' @ xs @ '' for '' @ (d # ds) @ '' month'' @ t) =
           Some (''I need a loan for $'' @ xs @ '' for '', (d # ds) @ '' month'', t,
                 [(1, d # ds)])"
  using duration_search_at_amount [OF assms]
  by (simp add: search_def search_from_fail duration_re_fail is_digit_def
      del: search_from.simps)

lemma mod_ten_cases:
  "(n::nat) mod 10 = 0 \<or> n mod 10 = 1 \<or> n mod 10 = 2 \<or> n mod 10 = 3 \<or> n mod 10 = 4 \<or>
   n mod 10 = 5 \<or> n mod 10 = 6 \<or> n mod 10 = 7 \<or> n mod 10 = 8 \<or> n mod 10 = 9"
  by arith

lemma is_digit_digit_char: "is_digit (digit_char n)"
  using mod_ten_cases [of n] by (auto simp: digit_char_def is_digit_def)

lemma digit_val_digit_char: "digit_val (digit_char n) = int (n mod 10)"
  using mod_ten_cases [of n] by (auto simp: digit_char_def digit_val_def)

lemma show_nat_digits: "list_all is_digit (show_nat n)"
  by (induction n rule: show_nat.induct) (subst show_nat.simps, simp add: is_digit_digit_char)

lemma show_nat_nonempty: "show_nat n \<noteq> []"
  by (subst show_nat.simps) simp

lemma digits_val_snoc: "digits_val (ds @ [c]) = 10 * digits_val ds + digit_val c"
  by (simp add: digits_val_def)

lemma digits_val_show_nat: "digits_val (show_nat n) = int n"
proof (induction n rule: show_nat.induct)
  case (1 n)
  show ?case
  proof (cases "n < 10")
    case True
    then show ?thesis
      by (subst show_nat.simps) (simp add: digits_val_def digit_val_digit_char)
  next
    case False
    with 1 have "digits_val (show_nat (n div 10)) = int (n div 10)" by simp
    with False show ?thesis
      by (subst show_nat.simps) (simp add: digits_val_snoc digit_val_digit_char zdiv_int zmod_int)
  qed
qed

lemma remove_commas_digits: "list_all is_digit ds \<Longrightarrow> remove_commas ds = ds"
  unfolding remove_commas_def
  by (induction ds) (auto simp: is_digit_def)

lemma parseFloat_digits:
  "list_all is_digit ds \<Longrightarrow> ds \<noteq> [] \<Longrightarrow> parseFloat ds = JNum (of_int (digits_val ds))"
proof -
  assume a: "list_all is_digit ds" "ds \<noteq> []"
  then have tw: "takeWhile is_digit ds = ds" and dw: "dropWhile is_digit ds = []"
    by (simp_all add: list_all_iff)
  show ?thesis
    unfolding parseFloat_def Let_def tw dw using a(2) by (simp add: digits_val_def)
qed

lemma parseInt_digits:
  "list_all is_digit ds \<Longrightarrow> ds \<noteq> [] \<Longrightarrow> parseInt ds = JNum (of_int (digits_val ds))"
proof -
  assume a: "list_all is_digit ds" "ds \<noteq> []"
  then have tw: "takeWhile is_digit ds = ds"
    by (simp_all add: list_all_iff)
  show ?thesis
    unfolding parseInt_def Let_def tw using a(2) by simp
qed

lemma amount_of_digits:
  assumes "list_all is_digit (d # ds)"
  shows "group_or_null
           (js_match False amount_re (''I need a loan for $'' @ (d # ds) @ CHR '' '' # t)) 1
           (\<lambda>g. parseFloat (remove_commas g)) = JNum (of_int (digits_val (d # ds)))"
  using assms
  by (simp add: js_match_def amount_search [OF assms] ngroups_amount_re group_or_null_def
      arr_get_def remove_commas_digits parseFloat_digits del: append_Cons)

lemma duration_of_digits:
  assumes "list_all is_digit xs" and "list_all is_digit (d # ds)"
  shows "group_or_null
           (js_match True duration_re
              (''I need a loan for $'' @ xs @ '' for '' @ (d # ds) @ '' month'' @ t)) 1
           parseInt = JNum (of_int (digits_val (d # ds)))"
  using assms
  by (simp add: js_match_def duration_search [OF assms] ngroups_duration_re group_or_null_def
      arr_get_def parseInt_digits del: append_Cons)

lemma fallback_sample_request:
  "parseLoanRequestFallback
     (JStr ''I need a loan for $500000 for 36 months to start a bakery with expected income of $200000'') =
   \<lparr>amount = JNum 500000, duration = JNum 36,
    purpose = JStr ''s to start a bakery with expected'', expected_income = JNum 0\<rparr>"
  by code_simp

text \<open>
  C1. The round trip of a synthetic request is to give back the amount, the duration,
  the expected income and a purpose containing the phrase. For every amount, duration,
  purpose and expected income the extractor gives back the amount and the duration,
  but the expected income it returns is 0 whatever the request says: line 100 reads
  group 2 of a pattern that has one group.
\<close>

theorem fallback_round_trip:
  "amount (parseLoanRequestFallback (JStr (round_trip_text x y p z))) = JNum (of_nat x) \<and>
   duration (parseLoanRequestFallback (JStr (round_trip_text x y p z))) = JNum (of_nat y) \<and>
   expected_income (parseLoanRequestFallback (JStr (round_trip_text x y p z))) = JNum 0"
proof -
  obtain d ds where x: "show_nat x = d # ds"
    using show_nat_nonempty [of x] by (cases "show_nat x") auto
  obtain e es where y: "show_nat y = e # es"
    using show_nat_nonempty [of y] by (cases "show_nat y") auto
  from x y have dx: "list_all is_digit (d # ds)" and dy: "list_all is_digit (e # es)"
    using show_nat_digits [of x] show_nat_digits [of y] by simp_all
  let ?t = "''s to '' @ p @ '' with expected income of $'' @ show_nat z"
  have shape: "round_trip_text x y p z =
      ''I need a loan for $'' @ (d # ds) @ '' for '' @ (e # es) @ '' month'' @ ?t"
    by (simp add: round_trip_text_def x y)
  have shape': "round_trip_text x y p z =
      ''I need a loan for $'' @ (d # ds) @ CHR '' '' # (''for '' @ (e # es) @ '' month'' @ ?t)"
    by (simp add: round_trip_text_def x y)
  have a: "amount (extract_fields (round_trip_text x y p z)) = JNum (of_int (digits_val (d # ds)))"
    unfolding extract_fields_def Let_def shape'
    using amount_of_digits [OF dx] by (simp del: append_Cons)
  have b: "duration (extract_fields (round_trip_text x y p z)) = JNum (of_int (digits_val (e # es)))"
    unfolding extract_fields_def Let_def shape
    using duration_of_digits [OF dx dy] by (simp del: append_Cons)
  have ne: "round_trip_text x y p z \<noteq> []" by (simp add: round_trip_text_def)
  from a b ne x y show ?thesis
    using digits_val_show_nat [of x] digits_val_show_nat [of y]
      fallback_income_always_zero [of "JStr (round_trip_text x y p z)"]
    by (simp add: fallback_string)
qed

theorem fallback_round_trip_witness:
  "round_trip_text 500000 36 ''start a bakery'' 200000 =
     ''I need a loan for $500000 for 36 months to start a bakery with expected income of $200000'' \<and>
   amount (parseLoanRequestFallback (JStr (round_trip_text 500000 36 ''start a bakery'' 200000))) =
     JNum 500000 \<and>
   duration (parseLoanRequestFallback (JStr (round_trip_text 500000 36 ''start a bakery'' 200000))) =
     JNum 36 \<and>
   purpose (parseLoanRequestFallback (JStr (round_trip_text 500000 36 ''start a bakery'' 200000))) =
     JStr ''s to start a bakery with expected'' \<and>
   expected_income
     (parseLoanRequestFallback (JStr (round_trip_text 500000 36 ''start a bakery'' 200000))) =
     JNum 0"
proof -
  have shape: "round_trip_text 500000 36 ''start a bakery'' 200000 =
     ''I need a loan for $500000 for 36 months to start a bakery with expected income of $200000''"
    by (simp add: round_trip_text_def show_nat.simps digit_char_def)
  from fallback_round_trip [of 500000 36 "''start a bakery''" 200000] fallback_sample_request shape
  show ?thesis by simp
qed

section \<open>The purpose returned by the fallback extractor\<close>

lemma extract_purpose_remainder:
  "extract_purpose msg =
     (if purpose_remainder msg = [] then first_purpose purposePatterns msg []
      else purpose_remainder msg)"
  by (simp add: extract_purpose_def purpose_remainder_def removePhrases_def Let_def)

lemma fallback_purpose_string:
  "msg \<noteq> [] \<Longrightarrow> purpose (parseLoanRequestFallback (JStr msg)) = JStr (extract_purpose msg)"
  by (simp add: fallback_string extract_fields_def Let_def)

lemma first_purpose_for:
  "js_match True after_for_re msg = Some [Some w, Some g] \<Longrightarrow> g \<noteq> [] \<Longrightarrow>
     first_purpose purposePatterns msg cur = js_trim g"
  by (simp add: purposePatterns_def arr_get_def)

lemma first_purpose_verb:
  "js_match True after_for_re msg = None \<Longrightarrow>
   js_match True after_verb_re msg = Some [Some w, Some g] \<Longrightarrow> g \<noteq> [] \<Longrightarrow>
     first_purpose purposePatterns msg cur = js_trim g"
  by (simp add: purposePatterns_def arr_get_def)

lemma first_purpose_none:
  "js_match True after_for_re msg = None \<Longrightarrow> js_match True after_verb_re msg = None \<Longrightarrow>
     first_purpose purposePatterns msg cur = cur"
  by (simp add: purposePatterns_def)

text \<open>
  C7 (as the code has it). For every non-empty text the purpose is a string, never
  \<open>null\<close>. It is the remainder of the text after the first match (not every match) of
  each pattern has been cut out: the lead-ins \<open>i need a loan for\<close>,
  \<open>i want to borrow\<close>, \<open>loan for\<close>, \<open>borrow\<close>, then the amount, the duration and the
  income pattern, in this order; the remainder is trimmed and a leading \<open>to\<close> or
  \<open>for\<close> is cut off. If the remainder is empty, the purpose is the trimmed text that
  follows \<open>for\<close> or \<open>to\<close> in the original text, or else the trimmed text that follows
  one of \<open>start\<close>, \<open>open\<close>, \<open>build\<close>, \<open>buy\<close>, \<open>invest in\<close>; if neither occurs, it is the
  empty string. Each cut removes one piece of the text or nothing.
\<close>

theorem fallback_purpose:
  assumes "msg \<noteq> []"
  shows "(purpose_remainder msg \<noteq> [] \<longrightarrow>
            purpose (parseLoanRequestFallback (JStr msg)) = JStr (purpose_remainder msg)) \<and>
         (\<forall>arr. purpose_remainder msg = [] \<and> js_match True after_for_re msg = Some arr \<longrightarrow>
            (\<exists>w g. arr = [Some w, Some g] \<and> g \<noteq> [] \<and>
               purpose (parseLoanRequestFallback (JStr msg)) = JStr (js_trim g))) \<and>
         (\<forall>arr. purpose_remainder msg = [] \<and> js_match True after_for_re msg = None \<and>
            js_match True after_verb_re msg = Some arr \<longrightarrow>
            (\<exists>w g. arr = [Some w, Some g] \<and> g \<noteq> [] \<and>
               purpose (parseLoanRequestFallback (JStr msg)) = JStr (js_trim g))) \<and>
         (purpose_remainder msg = [] \<and> js_match True after_for_re msg = None \<and>
            js_match True after_verb_re msg = None \<longrightarrow>
            purpose (parseLoanRequestFallback (JStr msg)) = JStr []) \<and>
         purpose (parseLoanRequestFallback (JStr msg)) \<noteq> JNull \<and>
         (\<forall>ic r s. js_replace ic r s = s \<or>
            (\<exists>pre m post caps. search ic r s = Some (pre, m, post, caps) \<and> s = pre @ m @ post \<and>
               js_replace ic r s = pre @ post))"
proof (intro conjI allI impI)
  assume "purpose_remainder msg \<noteq> []"
  with assms show "purpose (parseLoanRequestFallback (JStr msg)) = JStr (purpose_remainder msg)"
    by (simp add: fallback_purpose_string extract_purpose_remainder)
next
  fix arr
  assume a: "purpose_remainder msg = [] \<and> js_match True after_for_re msg = Some arr"
  then obtain w g where "arr = [Some w, Some g]" "g \<noteq> []"
    using after_for_captures by blast
  with a assms show "\<exists>w g. arr = [Some w, Some g] \<and> g \<noteq> [] \<and>
      purpose (parseLoanRequestFallback (JStr msg)) = JStr (js_trim g)"
    by (simp add: fallback_purpose_string extract_purpose_remainder first_purpose_for)
next
  fix arr
  assume a: "purpose_remainder msg = [] \<and> js_match True after_for_re msg = None \<and>
            js_match True after_verb_re msg = Some arr"
  then obtain w g where "arr = [Some w, Some g]" "g \<noteq> []"
    using after_verb_captures by blast
  with a assms show "\<exists>w g. arr = [Some w, Some g] \<and> g \<noteq> [] \<and>
      purpose (parseLoanRequestFallback (JStr msg)) = JStr (js_trim g)"
    by (simp add: fallback_purpose_string extract_purpose_remainder first_purpose_verb)
next
  assume "purpose_remainder msg = [] \<and> js_match True after_for_re msg = None \<and>
            js_match True after_verb_re msg = None"
  with assms show "purpose (parseLoanRequestFallback (JStr msg)) = JStr []"
    by (simp add: fallback_purpose_string extract_purpose_remainder first_purpose_none)
next
  from assms show "purpose (parseLoanRequestFallback (JStr msg)) \<noteq> JNull"
    by (simp add: fallback_purpose_string)
next
  fix ic r s
  show "js_replace ic r s = s \<or>
            (\<exists>pre m post caps. search ic r s = Some (pre, m, post, caps) \<and> s = pre @ m @ post \<and>
               js_replace ic r s = pre @ post)"
    using js_replace_cuts_once [of ic r s] by blast
qed

theorem fallback_purpose_witness:
  "purpose (parseLoanRequestFallback (JStr ''I need $500 for 12 months to buy a van'')) =
     JStr ''I need  for s to buy a van'' \<and>
   purpose (parseLoanRequestFallback (JStr ''loan for $5'')) = JStr ''$5'' \<and>
   purpose (parseLoanRequestFallback (JStr ''5'')) = JStr []"
proof -
  have r1: "purpose_remainder ''I need $500 for 12 months to buy a van'' = ''I need  for s to buy a van''"
    by code_simp
  have r2: "purpose_remainder ''loan for $5'' = []"
    by code_simp
  have m2: "js_match True after_for_re ''loan for $5'' = Some [Some ''for $5'', Some ''$5'']"
    by code_simp
  have t2: "js_trim ''$5'' = ''$5''"
    by code_simp
  have r3: "purpose_remainder ''5'' = []"
    by code_simp
  have m3: "js_match True after_for_re ''5'' = None" "js_match True after_verb_re ''5'' = None"
    by code_simp+
  from fallback_purpose [of "''I need $500 for 12 months to buy a van''"] r1
  have a: "purpose (parseLoanRequestFallback (JStr ''I need $500 for 12 months to buy a van'')) =
     JStr ''I need  for s to buy a van''"
    by simp
  from fallback_purpose [of "''loan for $5''"] r2 m2 t2
  have b: "purpose (parseLoanRequestFallback (JStr ''loan for $5'')) = JStr ''$5''"
    by simp
  from fallback_purpose [of "''5''"] r3 m3
  have c: "purpose (parseLoanRequestFallback (JStr ''5'')) = JStr []"
    by simp
  from a b c show ?thesis by simp
qed

text \<open>
  For the text \<open>5\<close> the remainder is empty and neither secondary pattern matches: the
  purpose is the empty string, not \<open>null\<close>. For \<open>borrow money to borrow a car\<close> only the
  first \<open>borrow\<close> is cut, and the purpose still holds a match of that lead-in.
\<close>

theorem fallback_purpose_counterexample:
  "purpose (parseLoanRequestFallback (JStr ''5'')) = JStr [] \<and>
   js_match True after_for_re ''5'' = None \<and>
   js_match True after_verb_re ''5'' = None \<and>
   purpose (parseLoanRequestFallback (JStr ''borrow money to borrow a car'')) =
     JStr ''money to borrow a car'' \<and>
   js_match True (lits ''borrow'') ''money to borrow a car'' = Some [Some ''borrow'']"
proof -
  have "parseLoanRequestFallback (JStr ''5'') =
      \<lparr>amount = JNum 5, duration = JNull, purpose = JStr [], expected_income = JNum 0\<rparr>"
    by code_simp
  moreover have "js_match True after_for_re ''5'' = None" "js_match True after_verb_re ''5'' = None"
    by code_simp+
  moreover have "parseLoanRequestFallback (JStr ''borrow money to borrow a car'') =
      \<lparr>amount = JNull, duration = JNull, purpose = JStr ''money to borrow a car'',
       expected_income = JNum 0\<rparr>"
    by code_simp
  moreover have "js_match True (lits ''borrow'') ''money to borrow a car'' = Some [Some ''borrow'']"
    by code_simp
  ultimately show ?thesis by simp
qed

section \<open>Properties of the ranking\<close>

lemma compare_offers_le: "compare_offers a b \<le> 0 \<longleftrightarrow> before a b"
  by (auto simp: compare_offers_def before_def)

lemma before_total: "\<not> before a b \<Longrightarrow> before b a"
  by (auto simp: before_def)

lemma before_trans: "before a b \<Longrightarrow> before b c \<Longrightarrow> before a c"
  by (auto simp: before_def)

lemma set_insert_sorted: "set (insert_sorted cmp x ys) = insert x (set ys)"
  by (induction ys) auto

lemma sorted_insert_sorted:
  "sorted_wrt before ys \<Longrightarrow> sorted_wrt before (insert_sorted compare_offers x ys)"
proof (induction ys)
  case Nil
  then show ?case by simp
next
  case (Cons y ys)
  show ?case
  proof (cases "compare_offers x y \<le> 0")
    case True
    then have "before x y" by (simp add: compare_offers_le)
    with Cons.prems have "\<forall>z\<in>set (y # ys). before x z"
      by (auto intro: before_trans)
    with True Cons.prems show ?thesis by simp
  next
    case False
    then have "before y x" by (simp add: compare_offers_le before_total)
    with False Cons show ?thesis by (auto simp: set_insert_sorted)
  qed
qed

lemma sorted_js_sort: "sorted_wrt before (js_sort compare_offers xs)"
  unfolding js_sort_def by (induction xs) (simp_all add: sorted_insert_sorted)

lemma set_js_sort: "set (js_sort cmp xs) = set xs"
  unfolding js_sort_def by (induction xs) (simp_all add: set_insert_sorted)

lemma filter_approved_set:
  "filter_approved offers = Inr kept \<Longrightarrow> (b, ofr) \<in> set kept \<Longrightarrow>
     b \<in> set offers \<and> offer b = Some ofr \<and> amount_approved ofr > 0"
  by (induction offers arbitrary: kept)
     (auto simp: bind_err_def split: option.splits sum.splits if_splits)

lemma filter_approved_total:
  "(\<forall>b \<in> set offers. offer b \<noteq> None) \<Longrightarrow> \<exists>kept. filter_approved offers = Inr kept"
  by (induction offers) (auto simp: bind_err_def split: option.splits sum.splits)

lemma rank_total:
  "(\<forall>b \<in> set offers. offer b \<noteq> None) \<Longrightarrow> \<exists>rs. rank offers sel = Inr rs"
  using filter_approved_total [of offers] by (auto simp: rank_def bind_err_def)

lemma rank_Inr:
  "rank offers sel = Inr rs \<Longrightarrow>
     \<exists>kept. filter_approved offers = Inr kept \<and>
       rs = map (\<lambda>(offerData, ofr).
                   \<lparr>entry = offerData, shown = ofr, recommended = (bank_id offerData = sel)\<rparr>)
              (take 3 (js_sort compare_offers kept))"
  by (auto simp: rank_def bind_err_def split: sum.splits)

lemma rank_length: "rank offers sel = Inr rs \<Longrightarrow> length rs \<le> 3"
  by (auto dest!: rank_Inr)

lemma rank_members:
  assumes "rank offers sel = Inr rs" and "r \<in> set rs"
  shows "entry r \<in> set offers \<and> offer (entry r) = Some (shown r) \<and>
         amount_approved (shown r) > 0 \<and> (recommended r \<longleftrightarrow> bank_id (entry r) = sel)"
proof -
  from assms(1) obtain kept where k: "filter_approved offers = Inr kept"
    and rs: "rs = map (\<lambda>(offerData, ofr).
                        \<lparr>entry = offerData, shown = ofr, recommended = (bank_id offerData = sel)\<rparr>)
                   (take 3 (js_sort compare_offers kept))"
    by (auto dest!: rank_Inr)
  from assms(2) rs obtain b ofr where p: "(b, ofr) \<in> set (take 3 (js_sort compare_offers kept))"
    and r: "r = \<lparr>entry = b, shown = ofr, recommended = (bank_id b = sel)\<rparr>"
    by auto
  from p have "(b, ofr) \<in> set kept"
    using set_js_sort [of compare_offers kept] by (auto dest: in_set_takeD)
  with k r show ?thesis by (auto dest: filter_approved_set)
qed

lemma rank_adjacent:
  assumes "rank offers sel = Inr rs" and "Suc i < length rs"
  shows "amount_approved (shown (rs ! i)) > amount_approved (shown (rs ! Suc i)) \<or>
         (amount_approved (shown (rs ! i)) = amount_approved (shown (rs ! Suc i)) \<and>
          interest_rate (shown (rs ! i)) \<le> interest_rate (shown (rs ! Suc i)))"
proof -
  from assms(1) obtain kept where
    rs: "rs = map (\<lambda>(offerData, ofr).
                    \<lparr>entry = offerData, shown = ofr, recommended = (bank_id offerData = sel)\<rparr>)
               (take 3 (js_sort compare_offers kept))"
    by (auto dest!: rank_Inr)
  let ?top = "take 3 (js_sort compare_offers kept)"
  have s: "sorted_wrt before ?top"
    by (rule sorted_wrt_take) (rule sorted_js_sort)
  from assms(2) rs have len: "Suc i < length ?top" by simp
  have "before (?top ! i) (?top ! Suc i)"
    by (rule sorted_wrt_nth_less [OF s _ len]) simp
  moreover from len rs
  have "shown (rs ! i) = snd (?top ! i)" "shown (rs ! Suc i) = snd (?top ! Suc i)"
    by (simp_all add: case_prod_beta)
  ultimately show ?thesis by (simp add: before_def)
qed

lemma rank_example:
  "rank example_offers sel =
     Inr [\<lparr>entry = example_entry ''B'' 100000 (6 / 100),
           shown = example_offer 100000 (6 / 100), recommended = (''B'' = sel)\<rparr>,
          \<lparr>entry = example_entry ''A'' 100000 (8 / 100),
           shown = example_offer 100000 (8 / 100), recommended = (''A'' = sel)\<rparr>]"
  by (simp add: rank_def example_offers_def example_entry_def example_offer_def bind_err_def
      js_sort_def compare_offers_def)

text \<open>
  C4. For every list of offers and every selected bank, the ranking has at most three
  entries, none with an approved amount of 0; of two adjacent entries the first has the
  strictly greater approved amount, or the same amount and a lower or equal interest
  rate; an entry is marked recommended exactly when its bank is the selected one. The
  ranking exists whenever every entry of the list has an offer. The offers
  A (100000 at 0.08), B (100000 at 0.06) and C (0) rank to B, A.
\<close>

theorem rank_top_three:
  "((\<forall>b \<in> set offers. offer b \<noteq> None) \<longrightarrow> (\<exists>rs. rank offers sel = Inr rs)) \<and>
   (\<forall>rs. rank offers sel = Inr rs \<longrightarrow>
      length rs \<le> 3 \<and>
      (\<forall>r \<in> set rs. entry r \<in> set offers \<and> offer (entry r) = Some (shown r) \<and>
         amount_approved (shown r) \<noteq> 0 \<and> (recommended r \<longleftrightarrow> bank_id (entry r) = sel)) \<and>
      (\<forall>i. Suc i < length rs \<longrightarrow>
         amount_approved (shown (rs ! i)) > amount_approved (shown (rs ! Suc i)) \<or>
         (amount_approved (shown (rs ! i)) = amount_approved (shown (rs ! Suc i)) \<and>
          interest_rate (shown (rs ! i)) \<le> interest_rate (shown (rs ! Suc i))))) \<and>
   rank example_offers sel =
     Inr [\<lparr>entry = example_entry ''B'' 100000 (6 / 100),
           shown = example_offer 100000 (6 / 100), recommended = (''B'' = sel)\<rparr>,
          \<lparr>entry = example_entry ''A'' 100000 (8 / 100),
           shown = example_offer 100000 (8 / 100), recommended = (''A'' = sel)\<rparr>]"
proof (intro conjI allI impI ballI)
  assume "\<forall>b \<in> set offers. offer b \<noteq> None"
  then show "\<exists>rs. rank offers sel = Inr rs" by (rule rank_total)
next
  fix rs assume "rank offers sel = Inr rs"
  then show "length rs \<le> 3" by (rule rank_length)
next
  fix rs r assume a: "rank offers sel = Inr rs" "r \<in> set rs"
  from rank_members [OF a] show "entry r \<in> set offers" by simp
  from rank_members [OF a] show "offer (entry r) = Some (shown r)" by simp
  from rank_members [OF a] show "amount_approved (shown r) \<noteq> 0" by simp
  from rank_members [OF a] show "recommended r \<longleftrightarrow> bank_id (entry r) = sel" by simp
next
  fix rs i assume "rank offers sel = Inr rs" "Suc i < length rs"
  then show "amount_approved (shown (rs ! i)) > amount_approved (shown (rs ! Suc i)) \<or>
         (amount_approved (shown (rs ! i)) = amount_approved (shown (rs ! Suc i)) \<and>
          interest_rate (shown (rs ! i)) \<le> interest_rate (shown (rs ! Suc i)))"
    by (rule rank_adjacent)
next
  show "rank example_offers sel =
     Inr [\<lparr>entry = example_entry ''B'' 100000 (6 / 100),
           shown = example_offer 100000 (6 / 100), recommended = (''B'' = sel)\<rparr>,
          \<lparr>entry = example_entry ''A'' 100000 (8 / 100),
           shown = example_offer 100000 (8 / 100), recommended = (''A'' = sel)\<rparr>]"
    by (rule rank_example)
qed

theorem rank_top_three_witness:
  "\<exists>rs. rank example_offers ''B'' = Inr rs \<and> length rs \<le> 3 \<and>
     map (\<lambda>r. bank_id (entry r)) rs = [''B'', ''A''] \<and>
     map recommended rs = [True, False] \<and>
     map (\<lambda>r. amount_approved (shown r)) rs = [100000, 100000] \<and>
     map (\<lambda>r. interest_rate (shown r)) rs = [6 / 100, 8 / 100]"
proof -
  have present: "\<forall>b \<in> set example_offers. offer b \<noteq> None"
    by (simp add: example_offers_def example_entry_def)
  from rank_top_three [of example_offers "''B''"] present
  obtain rs where rs: "rank example_offers ''B'' = Inr rs" and len: "length rs \<le> 3"
    by blast
  from rank_top_three [of example_offers "''B''"] rs
  have "rs = [\<lparr>entry = example_entry ''B'' 100000 (6 / 100),
           shown = example_offer 100000 (6 / 100), recommended = (''B'' = ''B'')\<rparr>,
          \<lparr>entry = example_entry ''A'' 100000 (8 / 100),
           shown = example_offer 100000 (8 / 100), recommended = (''A'' = ''B'')\<rparr>]"
    by simp
  with rs len show ?thesis
    by (simp add: example_entry_def example_offer_def)
qed

section \<open>Properties of the negotiation\<close>

lemma handleNegotiate_agreed:
  assumes "offer offerData = Some cur" and "index < length offers"
    and "endpoint (request_for offerData cur) = Reply True (Some result)" and "agreed result"
  shows "handleNegotiate endpoint offers offerData index =
           \<lparr>offers_after = offers[index := (offers ! index)\<lparr>offer := updated_offer result\<rparr>],
            notification = note_success (new_rate result),
            sent = Some (request_for offerData cur)\<rparr>"
  using assms by (simp add: handleNegotiate_def request_for_def Let_def)


lemma handleNegotiate_unchanged:
  assumes "offer offerData = None \<or>
     (\<exists>cur. offer offerData = Some cur \<and>
        (endpoint (request_for offerData cur) = NoReply \<or>
         (\<exists>body. endpoint (request_for offerData cur) = Reply False body) \<or>
         endpoint (request_for offerData cur) = Reply True None \<or>
         (\<exists>result. endpoint (request_for offerData cur) = Reply True (Some result) \<and>
            \<not> agreed result)))"
  shows "offers_after (handleNegotiate endpoint offers offerData index) = offers"
  using assms by (auto simp: handleNegotiate_def request_for_def Let_def)

lemma handleNegotiate_rejected_note:
  assumes "offer offerData = Some cur"
    and "endpoint (request_for offerData cur) = Reply True (Some result)" and "\<not> agreed result"
  shows "notification (handleNegotiate endpoint offers offerData index) =
           note_rejected (reason result)"
  using assms by (simp add: handleNegotiate_def request_for_def Let_def)

lemma handleNegotiate_status_note:
  assumes "offer offerData = Some cur"
    and "endpoint (request_for offerData cur) = Reply False body"
  shows "notification (handleNegotiate endpoint offers offerData index) = note_request_failed"
  using assms by (simp add: handleNegotiate_def request_for_def Let_def)

lemma handleNegotiate_error_note:
  assumes "offer offerData = None \<or>
     (\<exists>cur. offer offerData = Some cur \<and>
        (endpoint (request_for offerData cur) = NoReply \<or>
         endpoint (request_for offerData cur) = Reply True None))"
  shows "notification (handleNegotiate endpoint offers offerData index) = note_error"
  using assms by (auto simp: handleNegotiate_def request_for_def Let_def)

lemma notes_distinct:
  "note_rejected why \<noteq> note_request_failed"
  "note_rejected why \<noteq> note_error"
  by (simp_all add: note_rejected_def note_request_failed_def note_error_def)

text \<open>
  C3 (as the code has it). When the endpoint answers with \<open>agreed = true\<close>, the call
  stores the answer's \<open>updated_offer\<close> at the index and leaves the other entries as
  they were. The stored interest rate is below the rate before the negotiation exactly
  when the \<open>updated_offer\<close> of the answer is present and has a lower rate: the code
  does not compare the two rates.
\<close>

theorem negotiate_agreed_stores_updated_offer:
  assumes "index < length offers" and "offers ! index = offerData"
    and "offer offerData = Some cur"
    and "endpoint (request_for offerData cur) = Reply True (Some result)"
    and "agreed result"
  shows "offers_after (handleNegotiate endpoint offers offerData index) =
           offers[index := offerData\<lparr>offer := updated_offer result\<rparr>] \<and>
         offer (offers_after (handleNegotiate endpoint offers offerData index) ! index) =
           updated_offer result \<and>
         ((\<exists>u. offer (offers_after (handleNegotiate endpoint offers offerData index) ! index) = Some u
               \<and> interest_rate u < interest_rate cur) \<longleftrightarrow>
          (\<exists>u. updated_offer result = Some u \<and> interest_rate u < interest_rate cur))"
  using assms handleNegotiate_agreed [of offerData cur index offers endpoint result]
  by simp

theorem negotiate_agreed_stores_updated_offer_witness:
  "map (\<lambda>b. map_option interest_rate (offer b))
     (offers_after (handleNegotiate endpoint_grants example_offers (example_entry ''A'' 100000 (8 / 100)) 0)) =
     [Some (75 / 1000), Some (6 / 100), Some (5 / 100)] \<and> (75 / 1000 :: rat) < 8 / 100"
proof -
  have 1: "0 < length example_offers" by (simp add: example_offers_def)
  have 2: "example_offers ! 0 = example_entry ''A'' 100000 (8 / 100)" by (simp add: example_offers_def)
  have 3: "offer (example_entry ''A'' 100000 (8 / 100)) = Some (example_offer 100000 (8 / 100))"
    by (simp add: example_entry_def)
  have 4: "endpoint_grants (request_for (example_entry ''A'' 100000 (8 / 100)) (example_offer 100000 (8 / 100))) =
     Reply True (Some \<lparr>agreed = True,
       updated_offer = Some ((example_offer 100000 (8 / 100))\<lparr>interest_rate := 75 / 1000\<rparr>),
       new_rate = Some (75 / 1000), reason = None\<rparr>)"
    by (simp add: endpoint_grants_def request_for_def example_offer_def)
  have 5: "agreed \<lparr>agreed = True,
       updated_offer = Some ((example_offer 100000 (8 / 100))\<lparr>interest_rate := 75 / 1000\<rparr>),
       new_rate = Some (75 / 1000), reason = None\<rparr>" by simp
  from negotiate_agreed_stores_updated_offer [where endpoint = endpoint_grants, OF 1 2 3 4 5]
  show ?thesis
    by (simp add: example_offers_def example_entry_def example_offer_def)
qed

text \<open>
  An endpoint that agrees and returns an offer at 0.09 for an offer at 0.07: the stored
  rate is 0.09, which is not below 0.07.
\<close>

theorem negotiate_agreed_rate_counterexample:
  "offer (offers_after (handleNegotiate endpoint_raises [example_entry ''A'' 100000 (7 / 100)]
       (example_entry ''A'' 100000 (7 / 100)) 0) ! 0) =
     Some ((example_offer 100000 (7 / 100))\<lparr>interest_rate := 9 / 100\<rparr>) \<and>
   \<not> interest_rate ((example_offer 100000 (7 / 100))\<lparr>interest_rate := 9 / 100\<rparr>) <
       interest_rate (example_offer 100000 (7 / 100))"
  by (simp add: handleNegotiate_def endpoint_raises_def example_entry_def example_offer_def Let_def)

text \<open>
  C5. When the answer has \<open>agreed = false\<close>, or the call fails in transport, or the
  status is not a success (or the body cannot be read), every offer of the list is
  unchanged. A rejection is reported as \<open>Negotiation failed:\<close> followed by the remote
  reason; a bad status as \<open>Negotiation request failed\<close>; a transport failure as
  \<open>Error during negotiation\<close>; and no reason makes the rejection message equal to one
  of the other two.
\<close>

theorem negotiate_failure_keeps_offers:
  assumes "offer offerData = Some cur"
    and "endpoint (request_for offerData cur) = reply"
    and "reply = NoReply \<or> (\<exists>body. reply = Reply False body) \<or> reply = Reply True None \<or>
         (\<exists>result. reply = Reply True (Some result) \<and> \<not> agreed result)"
  shows "offers_after (handleNegotiate endpoint offers offerData index) = offers \<and>
         (\<forall>result. reply = Reply True (Some result) \<longrightarrow>
            notification (handleNegotiate endpoint offers offerData index) =
              (''Negotiation failed: '' @ (case reason result of None \<Rightarrow> ''undefined'' | Some t \<Rightarrow> t),
               ''error'')) \<and>
         (\<forall>body. reply = Reply False body \<longrightarrow>
            notification (handleNegotiate endpoint offers offerData index) =
              (''Negotiation request failed'', ''error'')) \<and>
         (reply = NoReply \<or> reply = Reply True None \<longrightarrow>
            notification (handleNegotiate endpoint offers offerData index) =
              (''Error during negotiation'', ''error'')) \<and>
         (\<forall>why. note_rejected why \<noteq> (''Negotiation request failed'', ''error'') \<and>
                note_rejected why \<noteq> (''Error during negotiation'', ''error''))"
proof (intro conjI allI impI)
  show "offers_after (handleNegotiate endpoint offers offerData index) = offers"
    using assms by (intro handleNegotiate_unchanged) auto
next
  fix result assume "reply = Reply True (Some result)"
  with assms show "notification (handleNegotiate endpoint offers offerData index) =
      (''Negotiation failed: '' @ (case reason result of None \<Rightarrow> ''undefined'' | Some t \<Rightarrow> t),
       ''error'')"
    using handleNegotiate_rejected_note [of offerData cur endpoint result offers index]
    by (auto simp: note_rejected_def)
next
  fix body assume "reply = Reply False body"
  with assms show "notification (handleNegotiate endpoint offers offerData index) =
      (''Negotiation request failed'', ''error'')"
    using handleNegotiate_status_note [of offerData cur endpoint body offers index]
    by (simp add: note_request_failed_def)
next
  assume "reply = NoReply \<or> reply = Reply True None"
  with assms show "notification (handleNegotiate endpoint offers offerData index) =
      (''Error during negotiation'', ''error'')"
    using handleNegotiate_error_note [of offerData endpoint offers index]
    by (auto simp: note_error_def)
next
  fix why show "note_rejected why \<noteq> (''Negotiation request failed'', ''error'')"
    using notes_distinct(1) [of why] by (simp add: note_request_failed_def)
next
  fix why show "note_rejected why \<noteq> (''Error during negotiation'', ''error'')"
    using notes_distinct(2) [of why] by (simp add: note_error_def)
qed

theorem negotiate_failure_keeps_offers_witness:
  "offers_after (handleNegotiate endpoint_declines example_offers (example_entry ''A'' 100000 (8 / 100)) 0) =
     example_offers \<and>
   notification (handleNegotiate endpoint_declines example_offers (example_entry ''A'' 100000 (8 / 100)) 0) =
     (''Negotiation failed: rate too low'', ''error'') \<and>
   offers_after (handleNegotiate endpoint_error_status example_offers (example_entry ''A'' 100000 (8 / 100)) 0) =
     example_offers \<and>
   notification (handleNegotiate endpoint_error_status example_offers (example_entry ''A'' 100000 (8 / 100)) 0) =
     (''Negotiation request failed'', ''error'') \<and>
   offers_after (handleNegotiate endpoint_unreachable example_offers (example_entry ''A'' 100000 (8 / 100)) 0) =
     example_offers \<and>
   notification (handleNegotiate endpoint_unreachable example_offers (example_entry ''A'' 100000 (8 / 100)) 0) =
     (''Error during negotiation'', ''error'')"
proof -
  have cur: "offer (example_entry ''A'' 100000 (8 / 100)) = Some (example_offer 100000 (8 / 100))"
    by (simp add: example_entry_def)
  have d: "endpoint_declines (request_for (example_entry ''A'' 100000 (8 / 100)) (example_offer 100000 (8 / 100))) =
      Reply True (Some \<lparr>agreed = False, updated_offer = None, new_rate = None,
        reason = Some ''rate too low''\<rparr>)"
    by (simp add: endpoint_declines_def)
  have e: "endpoint_error_status (request_for (example_entry ''A'' 100000 (8 / 100)) (example_offer 100000 (8 / 100))) =
      Reply False None"
    by (simp add: endpoint_error_status_def)
  have u: "endpoint_unreachable (request_for (example_entry ''A'' 100000 (8 / 100)) (example_offer 100000 (8 / 100))) =
      NoReply"
    by (simp add: endpoint_unreachable_def)
  from negotiate_failure_keeps_offers [where endpoint = endpoint_declines
      and offers = example_offers and index = 0, OF cur d]
    negotiate_failure_keeps_offers [where endpoint = endpoint_error_status
      and offers = example_offers and index = 0, OF cur e]
    negotiate_failure_keeps_offers [where endpoint = endpoint_unreachable
      and offers = example_offers and index = 0, OF cur u]
  show ?thesis by simp
qed




text \<open>
  C9. At most one negotiation per index is to be in flight. With the single
  \<open>negotiating\<close> value this fails: after a click on offer 0 and a click on offer 1, both
  calls are in flight and the button of offer 0 is enabled again; a further click on
  offer 0 sends a second call for index 0 while the first has not settled.
\<close>

theorem negotiating_flag_second_call:
  "\<not> button_disabled (grid_run [Click 0, Click 1]) 0 \<and>
   in_flight (grid_run [Click 0, Click 1, Click 0]) = [0, 1, 0]"
  by (simp add: grid_run_def grid_init_def button_disabled_def)

section \<open>Properties of the interpreter and of the submission gate\<close>

lemma truthy_iff: "truthy v \<longleftrightarrow> v \<notin> {JUndefined, JNull, JBool False, JNum 0, JNaN, JStr []}"
  by (cases v) auto

lemma ollama_fallback_on_error:
  "fetched = Rejected \<or> (\<exists>body. fetched = Answered False body) \<or> fetched = Answered True None \<Longrightarrow>
   parseLoanRequestWithOllama JSON_parse fetched text = Inr (parseLoanRequestFallback text)"
  by (auto simp: parseLoanRequestWithOllama_def catch_err_def)

lemma ollama_never_throws: "\<exists>d. parseLoanRequestWithOllama JSON_parse fetched text = Inr d"
  unfolding parseLoanRequestWithOllama_def catch_err_def bind_err_def
  by (auto split: fetch_outcome.splits option.splits sum.splits)

lemma ollama_content:
  "fetched = Answered True (Some data) \<Longrightarrow> message_content data = Inr content \<Longrightarrow>
   parseLoanRequestWithOllama JSON_parse fetched text =
     (case parse_content JSON_parse content of Inl e \<Rightarrow> Inr (parseLoanRequestFallback text) | Inr d \<Rightarrow> Inr d)"
  by (auto simp: parseLoanRequestWithOllama_def catch_err_def bind_err_def split: sum.splits)

lemma ollama_no_content:
  "fetched = Answered True (Some data) \<Longrightarrow> message_content data = Inl e \<Longrightarrow>
   parseLoanRequestWithOllama JSON_parse fetched text = Inr (parseLoanRequestFallback text)"
  by (auto simp: parseLoanRequestWithOllama_def catch_err_def bind_err_def split: sum.splits)

lemma parse_content_fails:
  "\<not> is_string content \<or> (\<exists>c. content = JStr c \<and> JSON_parse (js_trim c) \<in> {None, Some JNull, Some JUndefined}) \<Longrightarrow>
   \<exists>e. parse_content JSON_parse content = Inl e"
  by (cases content) (auto simp: parse_content_def js_get_def bind_err_def)

lemma parse_content_object:
  "JSON_parse (js_trim c) = Some (JObj kvs) \<Longrightarrow>
   parse_content JSON_parse (JStr c) =
     Inr \<lparr>amount = (case map_of kvs ''amount'' of Some v \<Rightarrow> if truthy v then v else JNull | None \<Rightarrow> JNull),
          duration = (case map_of kvs ''duration'' of Some v \<Rightarrow> if truthy v then v else JNull | None \<Rightarrow> JNull),
          purpose = (case map_of kvs ''purpose'' of Some v \<Rightarrow> if truthy v then v else JNull | None \<Rightarrow> JNull),
          expected_income = (case map_of kvs ''expected_income'' of Some v \<Rightarrow> if truthy v then v else JNum 0 | None \<Rightarrow> JNum 0)\<rparr>"
  by (simp add: parse_content_def js_get_def bind_err_def js_or_def split: option.splits)

text \<open>
  C2 (as the code has it). The interpreter never throws. It returns the fallback
  extractor's result on the same text when the request fails in transport, when the
  status is not a success, when the body is not JSON or has no readable message
  content, and when the content is not a string that parses to a value other than
  \<open>null\<close>. When the content parses to an object, there is no fallback: each of amount,
  duration and purpose is the object's field if that is truthy and \<open>null\<close> otherwise,
  and the expected income is the object's field if truthy and 0 otherwise.
\<close>

theorem interpreter_falls_back:
  "(\<exists>loanData. parseLoanRequestWithOllama JSON_parse fetched msg = Inr loanData) \<and>
   (fetched = Rejected \<or> (\<exists>body. fetched = Answered False body) \<or> fetched = Answered True None \<longrightarrow>
      parseLoanRequestWithOllama JSON_parse fetched msg = Inr (parseLoanRequestFallback msg)) \<and>
   (\<forall>data e. fetched = Answered True (Some data) \<and> message_content data = Inl e \<longrightarrow>
      parseLoanRequestWithOllama JSON_parse fetched msg = Inr (parseLoanRequestFallback msg)) \<and>
   (\<forall>data content. fetched = Answered True (Some data) \<and> message_content data = Inr content \<and>
      (\<not> is_string content \<or>
       (\<exists>c. content = JStr c \<and> JSON_parse (js_trim c) \<in> {None, Some JNull, Some JUndefined})) \<longrightarrow>
      parseLoanRequestWithOllama JSON_parse fetched msg = Inr (parseLoanRequestFallback msg)) \<and>
   (\<forall>data c kvs. fetched = Answered True (Some data) \<and> message_content data = Inr (JStr c) \<and>
      JSON_parse (js_trim c) = Some (JObj kvs) \<longrightarrow>
      parseLoanRequestWithOllama JSON_parse fetched msg =
        Inr \<lparr>amount = (case map_of kvs ''amount'' of
                          Some v \<Rightarrow> if truthy v then v else JNull | None \<Rightarrow> JNull),
             duration = (case map_of kvs ''duration'' of
                          Some v \<Rightarrow> if truthy v then v else JNull | None \<Rightarrow> JNull),
             purpose = (case map_of kvs ''purpose'' of
                          Some v \<Rightarrow> if truthy v then v else JNull | None \<Rightarrow> JNull),
             expected_income = (case map_of kvs ''expected_income'' of
                          Some v \<Rightarrow> if truthy v then v else JNum 0 | None \<Rightarrow> JNum 0)\<rparr>)"
proof (intro conjI allI impI)
  show "\<exists>loanData. parseLoanRequestWithOllama JSON_parse fetched msg = Inr loanData"
    by (rule ollama_never_throws)
next
  assume "fetched = Rejected \<or> (\<exists>body. fetched = Answered False body) \<or> fetched = Answered True None"
  then show "parseLoanRequestWithOllama JSON_parse fetched msg = Inr (parseLoanRequestFallback msg)"
    by (rule ollama_fallback_on_error)
next
  fix data e
  assume "fetched = Answered True (Some data) \<and> message_content data = Inl e"
  then show "parseLoanRequestWithOllama JSON_parse fetched msg = Inr (parseLoanRequestFallback msg)"
    by (auto intro: ollama_no_content)
next
  fix data content
  assume a: "fetched = Answered True (Some data) \<and> message_content data = Inr content \<and>
      (\<not> is_string content \<or>
       (\<exists>c. content = JStr c \<and> JSON_parse (js_trim c) \<in> {None, Some JNull, Some JUndefined}))"
  then obtain e where "parse_content JSON_parse content = Inl e"
    using parse_content_fails [of content JSON_parse] by blast
  with a show "parseLoanRequestWithOllama JSON_parse fetched msg = Inr (parseLoanRequestFallback msg)"
    using ollama_content [of fetched data content JSON_parse msg] by simp
next
  fix data c kvs
  assume a: "fetched = Answered True (Some data) \<and> message_content data = Inr (JStr c) \<and>
      JSON_parse (js_trim c) = Some (JObj kvs)"
  then show "parseLoanRequestWithOllama JSON_parse fetched msg =
        Inr \<lparr>amount = (case map_of kvs ''amount'' of
                          Some v \<Rightarrow> if truthy v then v else JNull | None \<Rightarrow> JNull),
             duration = (case map_of kvs ''duration'' of
                          Some v \<Rightarrow> if truthy v then v else JNull | None \<Rightarrow> JNull),
             purpose = (case map_of kvs ''purpose'' of
                          Some v \<Rightarrow> if truthy v then v else JNull | None \<Rightarrow> JNull),
             expected_income = (case map_of kvs ''expected_income'' of
                          Some v \<Rightarrow> if truthy v then v else JNum 0 | None \<Rightarrow> JNum 0)\<rparr>"
    using ollama_content [of fetched data "JStr c" JSON_parse msg]
      parse_content_object [of JSON_parse c kvs]
    by simp
qed

theorem interpreter_falls_back_witness:
  "parseLoanRequestWithOllama sample_JSON_parse Rejected (JStr ''hello'') =
     Inr \<lparr>amount = JNull, duration = JNull, purpose = JStr ''hello'', expected_income = JNum 0\<rparr> \<and>
   parseLoanRequestWithOllama sample_JSON_parse sample_answer_prose (JStr ''hello'') =
     Inr \<lparr>amount = JNull, duration = JNull, purpose = JStr ''hello'', expected_income = JNum 0\<rparr> \<and>
   parseLoanRequestWithOllama sample_JSON_parse sample_answer (JStr ''hello'') =
     Inr \<lparr>amount = JNull, duration = JNull, purpose = JNull, expected_income = JNum 0\<rparr>"
proof -
  have f: "parseLoanRequestFallback (JStr ''hello'') =
      \<lparr>amount = JNull, duration = JNull, purpose = JStr ''hello'', expected_income = JNum 0\<rparr>"
    by code_simp
  have m1: "message_content (JObj [(''message'', JObj [(''role'', JStr ''assistant''), (''content'', JStr ''Sure, here it is'')])]) =
      Inr (JStr ''Sure, here it is'')"
    by (simp add: message_content_def js_get_def bind_err_def js_or_def)
  have p1: "sample_JSON_parse (js_trim ''Sure, here it is'') = None"
    by code_simp
  have m2: "message_content (JObj [(''message'', JObj [(''role'', JStr ''assistant''), (''content'', JStr ''{}'')])]) =
      Inr (JStr ''{}'')"
    by (simp add: message_content_def js_get_def bind_err_def js_or_def)
  have p2: "sample_JSON_parse (js_trim ''{}'') = Some (JObj [])"
    by code_simp
  from interpreter_falls_back [of sample_JSON_parse Rejected "JStr ''hello''"]
  have a: "parseLoanRequestWithOllama sample_JSON_parse Rejected (JStr ''hello'') =
      Inr (parseLoanRequestFallback (JStr ''hello''))"
    by simp
  from interpreter_falls_back [of sample_JSON_parse sample_answer_prose "JStr ''hello''"] m1 p1
  have b: "parseLoanRequestWithOllama sample_JSON_parse sample_answer_prose (JStr ''hello'') =
      Inr (parseLoanRequestFallback (JStr ''hello''))"
    by (simp add: sample_answer_prose_def)
  from interpreter_falls_back [of sample_JSON_parse sample_answer "JStr ''hello''"] m2 p2
  have c: "parseLoanRequestWithOllama sample_JSON_parse sample_answer (JStr ''hello'') =
     Inr \<lparr>amount = JNull, duration = JNull, purpose = JNull, expected_income = JNum 0\<rparr>"
    by (simp add: sample_answer_def)
  from a b c f show ?thesis by simp
qed

text \<open>
  A model answer whose content is \<open>{}\<close> has none of the required fields; the
  interpreter returns \<open>null\<close> fields, not the fallback extractor's result (amount 500,
  duration 12).
\<close>

theorem interpreter_missing_fields_counterexample:
  "parseLoanRequestWithOllama sample_JSON_parse sample_answer
       (JStr ''I need $500 for 12 months to buy a van'') =
     Inr \<lparr>amount = JNull, duration = JNull, purpose = JNull, expected_income = JNum 0\<rparr> \<and>
   parseLoanRequestFallback (JStr ''I need $500 for 12 months to buy a van'') =
     \<lparr>amount = JNum 500, duration = JNum 12, purpose = JStr ''I need  for s to buy a van'',
      expected_income = JNum 0\<rparr>"
proof -
  have "parseLoanRequestWithOllama sample_JSON_parse sample_answer msg =
     Inr \<lparr>amount = JNull, duration = JNull, purpose = JNull, expected_income = JNum 0\<rparr>" for msg
    by (simp add: parseLoanRequestWithOllama_def sample_answer_def sample_JSON_parse_def
        message_content_def parse_content_def js_get_def bind_err_def catch_err_def js_or_def
        js_trim_def is_space_def)
  moreover have "parseLoanRequestFallback (JStr ''I need $500 for 12 months to buy a van'') =
     \<lparr>amount = JNum 500, duration = JNum 12, purpose = JStr ''I need  for s to buy a van'',
      expected_income = JNum 0\<rparr>"
    by code_simp
  ultimately show ?thesis by simp
qed

text \<open>
  C8 (as the code has it). The completeness check is false exactly when the amount, the
  duration or the purpose is falsy (\<open>undefined\<close>, \<open>null\<close>, \<open>false\<close>, 0, \<open>NaN\<close> or the
  empty string) and true otherwise, whatever the expected income is. When it is false,
  \<open>handleSubmit\<close> appends the request for clarification and does not call
  \<open>onLoanRequest\<close>; when it is true, \<open>onLoanRequest\<close> is called with the request.
\<close>

theorem submission_gate:
  "(isComplete loanData \<longleftrightarrow>
      (\<forall>v \<in> {amount loanData, duration loanData, purpose loanData}.
         v \<notin> {JUndefined, JNull, JBool False, JNum 0, JNaN, JStr []})) \<and>
   isComplete (loanData\<lparr>expected_income := income\<rparr>) = isComplete loanData \<and>
   (js_trim inputValue \<noteq> [] \<and>
    parseLoanRequestWithOllama JSON_parse fetched (JStr (js_trim inputValue)) = Inr loanData \<and>
    \<not> isComplete loanData \<longrightarrow>
      handleSubmit JSON_parse fetched onLoanRequest inputValue =
        \<lparr>appended = [UserMessage (js_trim inputValue), BotClarify], submitted = None\<rparr>) \<and>
   (js_trim inputValue \<noteq> [] \<and>
    parseLoanRequestWithOllama JSON_parse fetched (JStr (js_trim inputValue)) = Inr loanData \<and>
    isComplete loanData \<longrightarrow>
      submitted (handleSubmit JSON_parse fetched onLoanRequest inputValue) = Some loanData)"
  by (auto simp: isComplete_def truthy_iff handleSubmit_def Let_def split: option.splits)

theorem submission_gate_witness:
  "handleSubmit sample_JSON_parse Rejected onLoanRequest_resolves ''  hello '' =
     \<lparr>appended = [UserMessage ''hello'', BotClarify], submitted = None\<rparr> \<and>
   submitted (handleSubmit sample_JSON_parse Rejected onLoanRequest_resolves
                '' I need $500 for 12 months to buy a van'') =
     Some \<lparr>amount = JNum 500, duration = JNum 12, purpose = JStr ''I need  for s to buy a van'',
            expected_income = JNum 0\<rparr>"
proof -
  have t1: "js_trim ''  hello '' = ''hello''" by code_simp
  have f1: "parseLoanRequestFallback (JStr ''hello'') =
      \<lparr>amount = JNull, duration = JNull, purpose = JStr ''hello'', expected_income = JNum 0\<rparr>"
    by code_simp
  have t2: "js_trim '' I need $500 for 12 months to buy a van'' = ''I need $500 for 12 months to buy a van''"
    by code_simp
  have f2: "parseLoanRequestFallback (JStr ''I need $500 for 12 months to buy a van'') =
      \<lparr>amount = JNum 500, duration = JNum 12, purpose = JStr ''I need  for s to buy a van'',
       expected_income = JNum 0\<rparr>"
    by code_simp
  have p: "parseLoanRequestWithOllama sample_JSON_parse Rejected v = Inr (parseLoanRequestFallback v)" for v
    by (simp add: parseLoanRequestWithOllama_def catch_err_def)
  from submission_gate [of "\<lparr>amount = JNull, duration = JNull, purpose = JStr ''hello'', expected_income = JNum 0\<rparr>"
      "JNum 0" "''  hello ''" sample_JSON_parse Rejected onLoanRequest_resolves]
  have a: "handleSubmit sample_JSON_parse Rejected onLoanRequest_resolves ''  hello '' =
     \<lparr>appended = [UserMessage ''hello'', BotClarify], submitted = None\<rparr>"
    by (simp add: t1 f1 p)
  from submission_gate [of "\<lparr>amount = JNum 500, duration = JNum 12, purpose = JStr ''I need  for s to buy a van'',
       expected_income = JNum 0\<rparr>"
      "JNum 0" "'' I need $500 for 12 months to buy a van''" sample_JSON_parse Rejected onLoanRequest_resolves]
  have b: "submitted (handleSubmit sample_JSON_parse Rejected onLoanRequest_resolves
                '' I need $500 for 12 months to buy a van'') =
     Some \<lparr>amount = JNum 500, duration = JNum 12, purpose = JStr ''I need  for s to buy a van'',
            expected_income = JNum 0\<rparr>"
    by (simp add: t2 f2 p)
  from a b show ?thesis by simp
qed

text \<open>
  A request with amount 0: no field is \<open>null\<close>, and the check is false.
\<close>

theorem submission_gate_counterexample:
  "amount (parseLoanRequestFallback (JStr ''loan of $0 for 12 months to buy a van'')) = JNum 0 \<and>
   duration (parseLoanRequestFallback (JStr ''loan of $0 for 12 months to buy a van'')) = JNum 12 \<and>
   purpose (parseLoanRequestFallback (JStr ''loan of $0 for 12 months to buy a van'')) =
     JStr ''loan of  for s to buy a van'' \<and>
   \<not> isComplete (parseLoanRequestFallback (JStr ''loan of $0 for 12 months to buy a van''))"
proof -
  have "parseLoanRequestFallback (JStr ''loan of $0 for 12 months to buy a van'') =
      \<lparr>amount = JNum 0, duration = JNum 12, purpose = JStr ''loan of  for s to buy a van'',
       expected_income = JNum 0\<rparr>"
    by code_simp
  then show ?thesis by (simp add: isComplete_def)
qed

end
